theory Spec2Isabelle
  imports Complex_Main "HOL-Library.Product_Lexorder" "HOL-Library.Multiset"
begin

section \<open>Python values and strings\<close>

text \<open>
  The values that \<^verbatim>\<open>json.loads\<close> hands to the program: \<^verbatim>\<open>None\<close>, booleans,
  integers, floats, strings, lists and dicts. A dict is kept as the list of its members
  in document order. A float is kept as the rational number that its literal denotes;
  the difference between that number and the nearest double is not modelled, and neither
  are the floats that are no numbers (infinities, NaN).
\<close>

datatype json =
    JNull
  | JBool bool
  | JInt int
  | JFloat rat
  | JStr string
  | JArr "json list"
  | JObj "(string \<times> json) list"

text \<open>The exceptions the modelled code can raise; \<open>HTTPError\<close> stands for every failure of
  a request (transport, status, missing response field) and carries its text. The last
  four are the database driver's: \<open>IntegrityError\<close> for a constraint that refuses a row,
  \<open>DataError\<close> for a number outside its column's range, \<open>ProgrammingError\<close> for a value
  that the driver cannot adapt or the statement cannot take, \<open>ValueError\<close> for a string
  with a NUL character. \<open>NotModelled\<close> is no exception of the program: it marks a bound
  value of which the model does not say what the driver and the database make of it, and
  a turn that ends with it says nothing about the program's turn.\<close>

datatype exn =
    HTTPError string
  | JSONDecodeError
  | AttributeError
  | TypeError
  | IntegrityError
  | DataError
  | ProgrammingError
  | ValueError
  | NotModelled

text \<open>Sequencing of two steps, the first of which may raise.\<close>

definition then_do :: "exn + 'a \<Rightarrow> ('a \<Rightarrow> exn + 'b) \<Rightarrow> exn + 'b" where
  "then_do m f = (case m of Inl e \<Rightarrow> Inl e | Inr x \<Rightarrow> f x)"

text \<open>\<^verbatim>\<open>d.get(k)\<close> and \<^verbatim>\<open>d.get(k, default)\<close>: a later member of a JSON object
  replaces an earlier one with the same key; on a value that is no dict the attribute
  \<^verbatim>\<open>get\<close> does not exist.\<close>

fun dict_get :: "json \<Rightarrow> string \<Rightarrow> exn + json option" where
  "dict_get (JObj kvs) k = Inr (map_of (rev kvs) k)"
| "dict_get _ k = Inl AttributeError"

definition dict_get_default :: "json \<Rightarrow> string \<Rightarrow> json \<Rightarrow> exn + json" where
  "dict_get_default d k dflt =
     (case dict_get d k of
        Inl e \<Rightarrow> Inl e
      | Inr None \<Rightarrow> Inr dflt
      | Inr (Some v) \<Rightarrow> Inr v)"

text \<open>Python truthiness of a value.\<close>

fun truthy :: "json \<Rightarrow> bool" where
  "truthy JNull = False"
| "truthy (JBool b) = b"
| "truthy (JInt n) = (n \<noteq> 0)"
| "truthy (JFloat q) = (q \<noteq> 0)"
| "truthy (JStr s) = (s \<noteq> [])"
| "truthy (JArr xs) = (xs \<noteq> [])"
| "truthy (JObj kvs) = (kvs \<noteq> [])"

fun is_dict :: "json \<Rightarrow> bool" where
  "is_dict (JObj kvs) = True"
| "is_dict _ = False"

text \<open>Strings are lists of characters with code points below 256. \<^verbatim>\<open>str.strip()\<close>
  removes the characters for which \<^verbatim>\<open>str.isspace\<close> holds from both ends.\<close>

definition newline :: char where
  "newline = CHR 0x0A"

definition py_space :: "char \<Rightarrow> bool" where
  "py_space c \<longleftrightarrow>
     (let n = (of_char c :: nat)
      in (9 \<le> n \<and> n \<le> 13) \<or> (28 \<le> n \<and> n \<le> 32) \<or> n = 133 \<or> n = 160)"

definition strip :: "string \<Rightarrow> string" where
  "strip s = rev (dropWhile py_space (rev (dropWhile py_space s)))"

definition startswith :: "string \<Rightarrow> string \<Rightarrow> bool" where
  "startswith s p \<longleftrightarrow> take (length p) s = p"

text \<open>\<^verbatim>\<open>s.split("\n")\<close> and \<^verbatim>\<open>"\n".join(lines)\<close>.\<close>

fun split_lines :: "string \<Rightarrow> string list" where
  "split_lines [] = [[]]"
| "split_lines (c # cs) =
     (if c = newline then [] # split_lines cs
      else (case split_lines cs of
              [] \<Rightarrow> [[c]]
            | l # ls \<Rightarrow> (c # l) # ls))"

fun join_lines :: "string list \<Rightarrow> string" where
  "join_lines [] = []"
| "join_lines [l] = l"
| "join_lines (l # ls) = l @ newline # join_lines ls"

text \<open>\<^verbatim>\<open>s.find(c)\<close> and \<^verbatim>\<open>s.rfind(c)\<close> for a single character: the index of the first
  (last) occurrence, \<open>-1\<close> when there is none.\<close>

fun py_find :: "string \<Rightarrow> char \<Rightarrow> int" where
  "py_find [] c = -1"
| "py_find (x # xs) c =
     (if x = c then 0
      else (let i = py_find xs c in if i = -1 then -1 else i + 1))"

definition py_rfind :: "string \<Rightarrow> char \<Rightarrow> int" where
  "py_rfind s c =
     (let i = py_find (rev s) c
      in if i = -1 then -1 else int (length s) - 1 - i)"

text \<open>\<^verbatim>\<open>s[start:end]\<close> for \<open>0 \<le> start\<close> and \<open>0 \<le> end\<close>, the only way the program slices.\<close>

definition slice :: "string \<Rightarrow> int \<Rightarrow> int \<Rightarrow> string" where
  "slice s start end' = take (nat end' - nat start) (drop (nat start) s)"

definition fence :: string where
  "fence = replicate 3 (CHR 0x60)"

text \<open>The fence removal shared by both clients:
  \<^verbatim>\<open>content = content.strip()
  if content.startswith(fence): lines = content.split("\n"); content = "\n".join(lines[1:-1])\<close>\<close>

definition strip_fence :: "string \<Rightarrow> string" where
  "strip_fence content0 =
     (let content = strip content0
      in if startswith content fence
         then join_lines (butlast (tl (split_lines content)))
         else content)"

section \<open>Role Search Client\<close>

text \<open>
  The response handling of \<^verbatim>\<open>scrape_company_roles\<close> (scraper.py, lines 71 to 94).
  \<open>loads\<close> is \<^verbatim>\<open>json.loads\<close>: \<open>None\<close> when it raises \<^verbatim>\<open>JSONDecodeError\<close>. In the
  fallback the decoded text begins with a bracket, so a decoder can only return a list
  there.
\<close>

definition parse_roles :: "(string \<Rightarrow> json option) \<Rightarrow> string \<Rightarrow> json list" where
  "parse_roles loads content0 =
     (let content = strip_fence content0
      in case loads content of
           Some (JArr roles) \<Rightarrow> roles
         | Some _ \<Rightarrow> []
         | None \<Rightarrow>
             (let start = py_find content (CHR ''['');
                  end' = py_rfind content (CHR '']'') + 1
              in if start \<noteq> -1 \<and> end' > start
                 then (case loads (slice content start end') of
                         Some (JArr roles) \<Rightarrow> roles
                       | _ \<Rightarrow> [])
                 else []))"

text \<open>The whole call: \<open>post\<close> is the request to the search service with
  \<^verbatim>\<open>raise_for_status\<close> and the extraction of the message content.\<close>

definition scrape_company_roles ::
  "(string \<Rightarrow> json option) \<Rightarrow> (string \<Rightarrow> string \<Rightarrow> exn + string) \<Rightarrow>
   string \<Rightarrow> string \<Rightarrow> exn + json list" where
  "scrape_company_roles loads post company_name careers_url =
     (case post company_name careers_url of
        Inl e \<Rightarrow> Inl e
      | Inr content \<Rightarrow> Inr (parse_roles loads content))"

section \<open>Role Scoring Client\<close>

definition error_result :: "string \<Rightarrow> string \<Rightarrow> json" where
  "error_result flag reasoning =
     JObj [(''total_score'', JInt 0),
           (''breakdown'', JObj []),
           (''red_flags'', JArr [JStr flag]),
           (''recommendation'', JStr ''Error''),
           (''reasoning'', JStr reasoning)]"

text \<open>
  The response handling of \<^verbatim>\<open>score_role\<close> (scorer.py, lines 78 to 100). The second
  \<^verbatim>\<open>json.loads\<close> stands in the \<^verbatim>\<open>except\<close> branch with no handler of its own, so its
  \<^verbatim>\<open>JSONDecodeError\<close> leaves the function.
\<close>

definition parse_score :: "(string \<Rightarrow> json option) \<Rightarrow> string \<Rightarrow> exn + json" where
  "parse_score loads content0 =
     (let content = strip_fence content0
      in case loads content of
           Some result \<Rightarrow> Inr result
         | None \<Rightarrow>
             (let start = py_find content (CHR ''{'');
                  end' = py_rfind content (CHR ''}'') + 1
              in if start \<noteq> -1 \<and> end' > start
                 then (case loads (slice content start end') of
                         Some result \<Rightarrow> Inr result
                       | None \<Rightarrow> Inl JSONDecodeError)
                 else Inr (error_result ''Failed to parse scoring response''
                             ''Could not parse Gemini response'')))"

text \<open>\<open>post\<close> is the request to the scoring service for the five role fields, with
  \<^verbatim>\<open>raise_for_status\<close> and the extraction of the candidate text.\<close>

definition score_role ::
  "(string \<Rightarrow> json option) \<Rightarrow> (json \<Rightarrow> json \<Rightarrow> json \<Rightarrow> json \<Rightarrow> string \<Rightarrow> exn + string) \<Rightarrow>
   json \<Rightarrow> json \<Rightarrow> json \<Rightarrow> json \<Rightarrow> string \<Rightarrow> exn + json" where
  "score_role loads post role_title role_description role_location role_seniority company_name =
     (case post role_title role_description role_location role_seniority company_name of
        Inl e \<Rightarrow> Inl e
      | Inr content \<Rightarrow> parse_score loads content)"

section \<open>A reference decoder\<close>

text \<open>
  \<^verbatim>\<open>json.loads\<close> belongs to the Python library; the clients above take it as the
  parameter \<open>loads\<close>. \<open>json_loads\<close> is a decoder for JSON texts over the model's
  characters: \<^verbatim>\<open>null\<close>, \<^verbatim>\<open>true\<close>, \<^verbatim>\<open>false\<close>, numbers (an integer literal is an
  \<^verbatim>\<open>int\<close>, a literal with a fraction or an exponent a \<^verbatim>\<open>float\<close>), strings with the
  two-character escapes and the \<^verbatim>\<open>\u00XX\<close> escapes, arrays and objects, separated by
  JSON white space. Escapes of code points from 256 on and the literals \<^verbatim>\<open>NaN\<close> and
  \<^verbatim>\<open>Infinity\<close>, which the library also accepts, have no value in the model and are
  not among its texts. It is used where a statement needs a concrete decoder.
\<close>

definition json_ws :: "char \<Rightarrow> bool" where
  "json_ws c \<longleftrightarrow> c = CHR '' '' \<or> c = CHR 0x09 \<or> c = CHR 0x0A \<or> c = CHR 0x0D"

definition skip_ws :: "string \<Rightarrow> string" where
  "skip_ws s = dropWhile json_ws s"

definition is_digit :: "char \<Rightarrow> bool" where
  "is_digit c \<longleftrightarrow> 48 \<le> (of_char c :: nat) \<and> (of_char c :: nat) \<le> 57"

definition digits_value :: "string \<Rightarrow> int" where
  "digits_value ds = foldl (\<lambda>n c. 10 * n + (int (of_char c) - 48)) 0 ds"

text \<open>An unsigned integer literal: one digit, or several that do not begin with a zero.\<close>

definition lex_nat :: "string \<Rightarrow> (int \<times> string) option" where
  "lex_nat s =
     (let ds = takeWhile is_digit s; r = dropWhile is_digit s
      in if ds = [] then None
         else if hd ds = CHR ''0'' then Some (0, tl s)
         else Some (digits_value ds, r))"

text \<open>The fraction and the exponent of a number literal, each present only with at
  least one digit; the value \<open>q\<close> times ten to the \<open>e\<close>.\<close>

definition lex_fraction :: "string \<Rightarrow> (rat \<times> string) option" where
  "lex_fraction s =
     (case s of
        [] \<Rightarrow> None
      | c # r \<Rightarrow>
          (let ds = takeWhile is_digit r
           in if c = CHR ''.'' \<and> ds \<noteq> []
              then Some (of_int (digits_value ds) / 10 ^ length ds, dropWhile is_digit r)
              else None))"

definition lex_exponent :: "string \<Rightarrow> (int \<times> string) option" where
  "lex_exponent s =
     (case s of
        [] \<Rightarrow> None
      | c # r \<Rightarrow>
          if c = CHR ''e'' \<or> c = CHR ''E'' then
            (let (neg, r1) = (case r of
                                [] \<Rightarrow> (False, r)
                              | d # r' \<Rightarrow> if d = CHR ''-'' then (True, r')
                                          else if d = CHR ''+'' then (False, r')
                                          else (False, r));
                 ds = takeWhile is_digit r1
             in if ds = [] then None
                else Some (if neg then - digits_value ds else digits_value ds,
                           dropWhile is_digit r1))
          else None)"

definition times_ten_to :: "rat \<Rightarrow> int \<Rightarrow> rat" where
  "times_ten_to q e = (if 0 \<le> e then q * 10 ^ nat e else q / 10 ^ nat (- e))"

text \<open>A number literal after its sign.\<close>

definition lex_number :: "bool \<Rightarrow> string \<Rightarrow> (json \<times> string) option" where
  "lex_number neg s =
     (case lex_nat s of
        None \<Rightarrow> None
      | Some (k, r) \<Rightarrow>
          (let (f, r1) = (case lex_fraction r of
                            None \<Rightarrow> (None, r)
                          | Some (q, r') \<Rightarrow> (Some q, r'));
               (e, r2) = (case lex_exponent r1 of
                            None \<Rightarrow> (None, r1)
                          | Some (x, r') \<Rightarrow> (Some x, r'))
           in if f = None \<and> e = None then Some (JInt (if neg then - k else k), r2)
              else (let q = times_ten_to (of_int k + (case f of None \<Rightarrow> 0 | Some x \<Rightarrow> x))
                                         (case e of None \<Rightarrow> 0 | Some x \<Rightarrow> x)
                    in Some (JFloat (if neg then - q else q), r2))))"

text \<open>The escapes of a string literal: the character after the backslash, and the four
  hexadecimal digits after \<^verbatim>\<open>\u\<close>.\<close>

definition hex_value :: "char \<Rightarrow> nat option" where
  "hex_value c =
     (let n = (of_char c :: nat)
      in if 48 \<le> n \<and> n \<le> 57 then Some (n - 48)
         else if 65 \<le> n \<and> n \<le> 70 then Some (n - 55)
         else if 97 \<le> n \<and> n \<le> 102 then Some (n - 87)
         else None)"

definition lex_hex4 :: "string \<Rightarrow> (char \<times> string) option" where
  "lex_hex4 s =
     (case s of
        a # b # c # d # r \<Rightarrow>
          (case (hex_value a, hex_value b, hex_value c, hex_value d) of
             (Some w, Some x, Some y, Some z) \<Rightarrow>
               if w = 0 \<and> x = 0 then Some (char_of (16 * y + z), r) else None
           | _ \<Rightarrow> None)
      | _ \<Rightarrow> None)"

definition unescape :: "char \<Rightarrow> char option" where
  "unescape e =
     (if e = CHR 0x22 then Some (CHR 0x22)
      else if e = CHR 0x5C then Some (CHR 0x5C)
      else if e = CHR ''/'' then Some (CHR ''/'')
      else if e = CHR ''b'' then Some (CHR 0x08)
      else if e = CHR ''f'' then Some (CHR 0x0C)
      else if e = CHR ''n'' then Some (CHR 0x0A)
      else if e = CHR ''r'' then Some (CHR 0x0D)
      else if e = CHR ''t'' then Some (CHR 0x09)
      else None)"

text \<open>The body of a string literal, after its opening quote.\<close>

function lex_string :: "string \<Rightarrow> (string \<times> string) option" where
  "lex_string [] = None"
| "lex_string [c] = (if c = CHR 0x22 then Some ([], []) else None)"
| "lex_string (c # e # cs) =
     (if c = CHR 0x22 then Some ([], e # cs)
      else if c = CHR 0x5C then
        (if e = CHR ''u'' then
           (case lex_hex4 cs of
              None \<Rightarrow> None
            | Some (x, cs') \<Rightarrow>
                (case lex_string (drop 4 cs) of
                   None \<Rightarrow> None
                 | Some (s, r) \<Rightarrow> Some (x # s, r)))
         else
           (case unescape e of
              None \<Rightarrow> None
            | Some x \<Rightarrow>
                (case lex_string cs of
                   None \<Rightarrow> None
                 | Some (s, r) \<Rightarrow> Some (x # s, r))))
      else if (of_char c :: nat) < 32 then None
      else (case lex_string (e # cs) of
              None \<Rightarrow> None
            | Some (s, r) \<Rightarrow> Some (c # s, r)))"
  by pat_completeness auto

termination lex_string
  by (relation "measure length") auto

text \<open>Recursive descent; the first argument bounds the number of nested calls and is
  chosen above twice the length of the text.\<close>

fun parse_value :: "nat \<Rightarrow> string \<Rightarrow> (json \<times> string) option"
  and parse_items :: "nat \<Rightarrow> string \<Rightarrow> (json list \<times> string) option"
  and parse_members :: "nat \<Rightarrow> string \<Rightarrow> ((string \<times> json) list \<times> string) option"
where
  "parse_value 0 s = None"
| "parse_value (Suc n) [] = None"
| "parse_value (Suc n) (c # cs) =
     (if c = CHR ''['' then
        (case skip_ws cs of
           [] \<Rightarrow> None
         | d # r \<Rightarrow>
             if d = CHR '']'' then Some (JArr [], r)
             else (case parse_items n (d # r) of
                     None \<Rightarrow> None
                   | Some (vs, r') \<Rightarrow> Some (JArr vs, r')))
      else if c = CHR ''{'' then
        (case skip_ws cs of
           [] \<Rightarrow> None
         | d # r \<Rightarrow>
             if d = CHR ''}'' then Some (JObj [], r)
             else (case parse_members n (d # r) of
                     None \<Rightarrow> None
                   | Some (kvs, r') \<Rightarrow> Some (JObj kvs, r')))
      else if c = CHR 0x22 then
        (case lex_string cs of
           None \<Rightarrow> None
         | Some (s, r) \<Rightarrow> Some (JStr s, r))
      else if c = CHR ''n'' then
        (if take 3 cs = ''ull'' then Some (JNull, drop 3 cs) else None)
      else if c = CHR ''t'' then
        (if take 3 cs = ''rue'' then Some (JBool True, drop 3 cs) else None)
      else if c = CHR ''f'' then
        (if take 4 cs = ''alse'' then Some (JBool False, drop 4 cs) else None)
      else if c = CHR ''-'' then lex_number True cs
      else lex_number False (c # cs))"
| "parse_items 0 s = None"
| "parse_items (Suc n) s =
     (case parse_value n s of
        None \<Rightarrow> None
      | Some (v, r) \<Rightarrow>
          (case skip_ws r of
             [] \<Rightarrow> None
           | d # r' \<Rightarrow>
               if d = CHR '']'' then Some ([v], r')
               else if d = CHR '','' then
                 (case parse_items n (skip_ws r') of
                    None \<Rightarrow> None
                  | Some (vs, r'') \<Rightarrow> Some (v # vs, r''))
               else None))"
| "parse_members 0 s = None"
| "parse_members (Suc n) s =
     (case s of
        [] \<Rightarrow> None
      | q # s' \<Rightarrow>
          if q \<noteq> CHR 0x22 then None
          else (case lex_string s' of
                  None \<Rightarrow> None
                | Some (k, r) \<Rightarrow>
                    (case skip_ws r of
                       [] \<Rightarrow> None
                     | colon # r1 \<Rightarrow>
                         if colon \<noteq> CHR '':'' then None
                         else (case parse_value n (skip_ws r1) of
                                 None \<Rightarrow> None
                               | Some (v, r2) \<Rightarrow>
                                   (case skip_ws r2 of
                                      [] \<Rightarrow> None
                                    | d # r3 \<Rightarrow>
                                        if d = CHR ''}'' then Some ([(k, v)], r3)
                                        else if d = CHR '','' then
                                          (case parse_members n (skip_ws r3) of
                                             None \<Rightarrow> None
                                           | Some (kvs, r4) \<Rightarrow> Some ((k, v) # kvs, r4))
                                        else None)))))"

definition json_loads :: "string \<Rightarrow> json option" where
  "json_loads s =
     (case parse_value (2 * length s + 2) (skip_ws s) of
        None \<Rightarrow> None
      | Some (v, r) \<Rightarrow> if skip_ws r = [] then Some v else None)"

section \<open>Persistence Store\<close>

text \<open>
  The three tables of \<^verbatim>\<open>init_db\<close>, each as the list of its rows in the order of their
  insertion, and the next value of each \<^verbatim>\<open>SERIAL\<close> sequence. A \<^verbatim>\<open>TEXT\<close> column holds
  a string (\<open>JStr\<close>) or SQL \<^verbatim>\<open>NULL\<close> (\<open>JNull\<close>) and nothing else: the writes below bind
  their values first. A score is stored within the range of \<^verbatim>\<open>INTEGER\<close>. Timestamps are
  natural numbers.
\<close>

record company =
  c_id :: int
  c_name :: string
  careers_url :: string
  active :: int
  created_at :: nat
  last_scraped_at :: "nat option"

record role_row =
  r_id :: int
  company_id :: int
  title :: json
  url :: json
  location :: json
  description :: json
  seniority :: json
  department :: json
  posted_date :: json
  score :: int
  score_breakdown :: json
  status :: string
  first_seen_at :: nat
  last_seen_at :: nat
  applied_at :: "nat option"

record scrape_log =
  l_id :: int
  l_company_id :: int
  started_at :: nat
  finished_at :: "nat option"
  roles_found :: nat
  roles_qualified :: nat
  l_status :: string
  l_error :: "string option"

record store =
  companies :: "company list"
  roles :: "role_row list"
  scrape_logs :: "scrape_log list"
  company_seq :: int
  role_seq :: int
  log_seq :: int

definition init_db :: store where
  "init_db = \<lparr>companies = [], roles = [], scrape_logs = [],
              company_seq = 1, role_seq = 1, log_seq = 1\<rparr>"

text \<open>The comparison \<^verbatim>\<open>column = %s\<close> of a \<^verbatim>\<open>WHERE\<close> clause: it holds of no row
  when either side is \<^verbatim>\<open>NULL\<close>.\<close>

definition sql_eq :: "json \<Rightarrow> json \<Rightarrow> bool" where
  "sql_eq a b \<longleftrightarrow> a \<noteq> JNull \<and> b \<noteq> JNull \<and> a = b"

text \<open>\<^verbatim>\<open>SELECT * FROM companies WHERE active = 1\<close> has no \<^verbatim>\<open>ORDER BY\<close>: the database
  may return the active rows in any order. \<open>get_active_companies\<close> is the result in the
  order of insertion; the runs below are also described for every other order.\<close>

definition get_active_companies :: "store \<Rightarrow> company list" where
  "get_active_companies st = filter (\<lambda>c. active c = 1) (companies st)"

text \<open>\<^verbatim>\<open>INSERT INTO companies ... ON CONFLICT (name) DO NOTHING\<close>: a row with the name
  keeps the insert from happening; the value that the sequence handed out for it is
  spent.\<close>

definition add_company :: "nat \<Rightarrow> store \<Rightarrow> string \<Rightarrow> string \<Rightarrow> store" where
  "add_company now st name url' =
     (if \<exists>c \<in> set (companies st). c_name c = name
      then st\<lparr>company_seq := company_seq st + 1\<rparr>
      else st\<lparr>companies := companies st @
                  [\<lparr>c_id = company_seq st, c_name = name, careers_url = url', active = 1,
                    created_at = now, last_scraped_at = None\<rparr>],
              company_seq := company_seq st + 1\<rparr>)"

definition remove_company :: "store \<Rightarrow> int \<Rightarrow> store" where
  "remove_company st cid =
     st\<lparr>companies := map (\<lambda>c. if c_id c = cid then c\<lparr>active := 0\<rparr> else c) (companies st)\<rparr>"

text \<open>
  What the driver (psycopg2) and the database make of a Python value that is bound to
  a \<^verbatim>\<open>TEXT\<close> column. \<^verbatim>\<open>None\<close> is \<^verbatim>\<open>NULL\<close>; a string is itself, unless it holds a NUL
  character, which the driver refuses; a dict cannot be adapted. Where the value is
  compared with the column (\<open>bind_key\<close>: title and location in the \<^verbatim>\<open>WHERE\<close> clause of
  the \<^verbatim>\<open>SELECT\<close>) a number, a boolean or a list with members finds no operator. Where
  it is assigned to the column (\<open>bind_text\<close>: the \<^verbatim>\<open>SET\<close> and \<^verbatim>\<open>VALUES\<close> lists) an
  integer is stored as its decimal text. The other cases (an empty list, and a boolean, a
  float or a list that is assigned) are not modelled.
\<close>

definition has_nul :: "string \<Rightarrow> bool" where
  "has_nul s \<longleftrightarrow> CHR 0x00 \<in> set s"

text \<open>The decimal text of an integer: the digits of a number that is not negative, and
  a minus sign before those of the others.\<close>

function show_digits :: "int \<Rightarrow> string" where
  "show_digits i =
     (if i < 10 then [char_of (48 + i)]
      else show_digits (i div 10) @ [char_of (48 + i mod 10)])"
  by pat_completeness auto

termination show_digits
  by (relation "measure nat") auto

declare show_digits.simps [simp del]

definition show_int :: "int \<Rightarrow> string" where
  "show_int i = (if i < 0 then CHR ''-'' # show_digits (- i) else show_digits i)"

fun bind_key :: "json \<Rightarrow> exn + json" where
  "bind_key JNull = Inr JNull"
| "bind_key (JStr s) = (if has_nul s then Inl ValueError else Inr (JStr s))"
| "bind_key (JArr []) = Inl NotModelled"
| "bind_key (JArr (x # xs)) = Inl ProgrammingError"
| "bind_key (JBool b) = Inl ProgrammingError"
| "bind_key (JInt n) = Inl ProgrammingError"
| "bind_key (JFloat q) = Inl ProgrammingError"
| "bind_key (JObj kvs) = Inl ProgrammingError"

fun bind_text :: "json \<Rightarrow> exn + json" where
  "bind_text JNull = Inr JNull"
| "bind_text (JStr s) = (if has_nul s then Inl ValueError else Inr (JStr s))"
| "bind_text (JInt n) = Inr (JStr (show_int n))"
| "bind_text (JObj kvs) = Inl ProgrammingError"
| "bind_text (JBool b) = Inl NotModelled"
| "bind_text (JFloat q) = Inl NotModelled"
| "bind_text (JArr xs) = Inl NotModelled"

text \<open>\<^verbatim>\<open>breakdown_json = json.dumps(score_breakdown) if isinstance(score_breakdown, dict)
  else score_breakdown\<close>, bound to its \<^verbatim>\<open>TEXT\<close> column; \<open>dumps\<close> is \<^verbatim>\<open>json.dumps\<close>.\<close>

definition bind_breakdown :: "(json \<Rightarrow> string) \<Rightarrow> json \<Rightarrow> exn + json" where
  "bind_breakdown dumps score_breakdown' =
     (if is_dict score_breakdown' then Inr (JStr (dumps score_breakdown'))
      else bind_text score_breakdown')"

text \<open>The range of an \<^verbatim>\<open>INTEGER\<close> column.\<close>

definition in_int4 :: "int \<Rightarrow> bool" where
  "in_int4 n \<longleftrightarrow> - 2147483648 \<le> n \<and> n \<le> 2147483647"

text \<open>
  The two statements of \<^verbatim>\<open>upsert_role\<close> on the values as they are bound. The
  \<^verbatim>\<open>SELECT\<close> has at most one row to return unless the location is \<^verbatim>\<open>NULL\<close>, when it
  has none; the \<^verbatim>\<open>INSERT\<close> is refused by the schema for a \<^verbatim>\<open>NULL\<close> title
  (\<^verbatim>\<open>NOT NULL\<close>) and for a company id that is no company's
  (\<^verbatim>\<open>REFERENCES companies(id)\<close>); \<^verbatim>\<open>UNIQUE(company_id, title, location)\<close> cannot
  refuse it, since a row equal on the three columns would have been selected and rows
  with a \<^verbatim>\<open>NULL\<close> among them never conflict.
\<close>

definition upsert_row ::
  "nat \<Rightarrow> store \<Rightarrow> int \<Rightarrow> json \<Rightarrow> json \<Rightarrow> json \<Rightarrow> json \<Rightarrow> json \<Rightarrow> json \<Rightarrow>
   int \<Rightarrow> json \<Rightarrow> json \<Rightarrow> exn + store" where
  "upsert_row now st cid title' url' location' description' seniority' department'
     score' breakdown_json posted_date' =
     (let existing = find (\<lambda>r. company_id r = cid \<and> sql_eq (title r) title' \<and>
                               sql_eq (location r) location') (roles st)
      in case existing of
           Some e \<Rightarrow>
             Inr (st\<lparr>roles := map (\<lambda>r. if r_id r = r_id e
                                         then r\<lparr>url := url', description := description',
                                                seniority := seniority', department := department',
                                                posted_date := posted_date', score := score',
                                                score_breakdown := breakdown_json,
                                                last_seen_at := now\<rparr>
                                         else r) (roles st)\<rparr>)
         | None \<Rightarrow>
             if title' = JNull \<or> cid \<notin> c_id ` set (companies st) then Inl IntegrityError
             else Inr (st\<lparr>roles := roles st @
                           [\<lparr>r_id = role_seq st, company_id = cid, title = title', url = url',
                             location = location', description = description',
                             seniority = seniority', department = department',
                             posted_date = posted_date', score = score',
                             score_breakdown = breakdown_json, status = ''new'',
                             first_seen_at = now, last_seen_at = now, applied_at = None\<rparr>],
                         role_seq := role_seq st + 1\<rparr>))"

text \<open>
  \<^verbatim>\<open>upsert_role\<close> (db.py, lines 141 to 171): the values are bound, the score has to lie
  in the range of its column, and the two statements run. The score is a Python
  \<^verbatim>\<open>int\<close> here; the callers' other numbers are bound by \<open>bind_integer\<close> below.
\<close>

definition upsert_role ::
  "(json \<Rightarrow> string) \<Rightarrow> nat \<Rightarrow> store \<Rightarrow> int \<Rightarrow> json \<Rightarrow> json \<Rightarrow> json \<Rightarrow> json \<Rightarrow> json \<Rightarrow> json \<Rightarrow>
   int \<Rightarrow> json \<Rightarrow> json \<Rightarrow> exn + store" where
  "upsert_role dumps now st cid title' url' location' description' seniority' department'
     score' score_breakdown' posted_date' =
     then_do (bind_key title') (\<lambda>t.
     then_do (bind_key location') (\<lambda>l.
     then_do (bind_breakdown dumps score_breakdown') (\<lambda>breakdown_json.
     then_do (bind_text url') (\<lambda>u.
     then_do (bind_text description') (\<lambda>d.
     then_do (bind_text seniority') (\<lambda>s.
     then_do (bind_text department') (\<lambda>p.
     then_do (bind_text posted_date') (\<lambda>pd.
       if in_int4 score' then upsert_row now st cid t u l d s p score' breakdown_json pd
       else Inl DataError))))))))"

text \<open>An \<^verbatim>\<open>INSERT\<close> that the schema refuses has taken its id from the sequence before
  the refusal, and the value is spent: the store after an upsert that raised \<open>e\<close>.\<close>

definition after_refusal :: "store \<Rightarrow> exn \<Rightarrow> store" where
  "after_refusal st e = (if e = IntegrityError then st\<lparr>role_seq := role_seq st + 1\<rparr> else st)"

text \<open>The listings. \<^verbatim>\<open>FROM roles r JOIN companies c ON r.company_id = c.id\<close> pairs a
  role with its company. \<^verbatim>\<open>ORDER BY\<close> fixes the order of rows that differ on a sort key
  and leaves the order of the others to the database: \<open>query_result key rows res\<close> says
  that \<open>res\<close> holds the selected rows in an order that the clause permits. The three
  functions give one such result each, the one that keeps rows with equal keys in the
  order of their insertion.\<close>

fun is_permutation :: "'a list \<Rightarrow> 'a list \<Rightarrow> bool" where
  "is_permutation [] ys = (ys = [])"
| "is_permutation (x # xs) ys = (x \<in> set ys \<and> is_permutation xs (remove1 x ys))"

definition query_result :: "('a \<Rightarrow> 'k::linorder) \<Rightarrow> 'a list \<Rightarrow> 'a list \<Rightarrow> bool" where
  "query_result key rows res \<longleftrightarrow> is_permutation res rows \<and> sorted (map key res)"

definition join_companies :: "store \<Rightarrow> (role_row \<times> company) list" where
  "join_companies st =
     concat (map (\<lambda>r. map (Pair r) (filter (\<lambda>c. company_id r = c_id c) (companies st)))
                 (roles st))"

definition get_qualified_roles :: "store \<Rightarrow> int \<Rightarrow> (role_row \<times> company) list" where
  "get_qualified_roles st threshold =
     sort_key (\<lambda>(r, c). (- score r, - int (last_seen_at r)))
       (filter (\<lambda>(r, c). score r \<ge> threshold) (join_companies st))"

definition get_all_roles :: "store \<Rightarrow> (role_row \<times> company) list" where
  "get_all_roles st =
     sort_key (\<lambda>(r, c). (- score r, - int (last_seen_at r))) (join_companies st)"

definition get_roles_by_company :: "store \<Rightarrow> int \<Rightarrow> (role_row \<times> company) list" where
  "get_roles_by_company st cid =
     sort_key (\<lambda>(r, c). - score r)
       (filter (\<lambda>(r, c). company_id r = cid) (join_companies st))"

definition qualified_roles_result ::
  "store \<Rightarrow> int \<Rightarrow> (role_row \<times> company) list \<Rightarrow> bool" where
  "qualified_roles_result st threshold res \<longleftrightarrow>
     query_result (\<lambda>(r, c). (- score r, - int (last_seen_at r)))
       (filter (\<lambda>(r, c). score r \<ge> threshold) (join_companies st)) res"

definition all_roles_result :: "store \<Rightarrow> (role_row \<times> company) list \<Rightarrow> bool" where
  "all_roles_result st res \<longleftrightarrow>
     query_result (\<lambda>(r, c). (- score r, - int (last_seen_at r))) (join_companies st) res"

definition roles_by_company_result :: "store \<Rightarrow> int \<Rightarrow> (role_row \<times> company) list \<Rightarrow> bool" where
  "roles_by_company_result st cid res \<longleftrightarrow>
     query_result (\<lambda>(r, c). - score r)
       (filter (\<lambda>(r, c). company_id r = cid) (join_companies st)) res"

definition mark_role_applied :: "nat \<Rightarrow> store \<Rightarrow> int \<Rightarrow> store" where
  "mark_role_applied now st role_id =
     st\<lparr>roles := map (\<lambda>r. if r_id r = role_id
                            then r\<lparr>status := ''applied'', applied_at := Some now\<rparr>
                            else r) (roles st)\<rparr>"

definition mark_role_dismissed :: "store \<Rightarrow> int \<Rightarrow> store" where
  "mark_role_dismissed st role_id =
     st\<lparr>roles := map (\<lambda>r. if r_id r = role_id then r\<lparr>status := ''dismissed''\<rparr> else r)
                    (roles st)\<rparr>"

definition update_company_scraped :: "nat \<Rightarrow> store \<Rightarrow> int \<Rightarrow> store" where
  "update_company_scraped now st cid =
     st\<lparr>companies := map (\<lambda>c. if c_id c = cid then c\<lparr>last_scraped_at := Some now\<rparr> else c)
                        (companies st)\<rparr>"

text \<open>\<^verbatim>\<open>log_scrape\<close>: one row, \<^verbatim>\<open>started_at\<close> by its default and \<^verbatim>\<open>finished_at\<close> both
  the time of the insert. The program calls it only for a company read from the table,
  and companies are never deleted, so the reference to the company holds.\<close>

definition log_scrape ::
  "nat \<Rightarrow> store \<Rightarrow> int \<Rightarrow> nat \<Rightarrow> nat \<Rightarrow> string \<Rightarrow> string option \<Rightarrow> store" where
  "log_scrape now st cid found qualified status' error' =
     st\<lparr>scrape_logs := scrape_logs st @
           [\<lparr>l_id = log_seq st, l_company_id = cid, started_at = now, finished_at = Some now,
             roles_found = found, roles_qualified = qualified, l_status = status',
             l_error = error'\<rparr>],
        log_seq := log_seq st + 1\<rparr>"

text \<open>The constraints of the schema that the rows of a store satisfy: primary keys,
  the unique company name, the reference of a role to its company, the title that is
  not \<^verbatim>\<open>NULL\<close>, the uniqueness of (company, title, location) among rows that have all
  three, and ids below the sequences, which start at 1.\<close>

definition wf_store :: "store \<Rightarrow> bool" where
  "wf_store st \<longleftrightarrow>
     distinct (map c_id (companies st)) \<and>
     distinct (map c_name (companies st)) \<and>
     distinct (map r_id (roles st)) \<and>
     (\<forall>c \<in> set (companies st). 1 \<le> c_id c \<and> c_id c < company_seq st) \<and>
     (\<forall>r \<in> set (roles st). r_id r < role_seq st \<and> title r \<noteq> JNull \<and>
         company_id r \<in> c_id ` set (companies st)) \<and>
     (\<forall>r \<in> set (roles st). \<forall>r' \<in> set (roles st).
         company_id r = company_id r' \<and> title r = title r' \<and> location r = location r' \<and>
         location r \<noteq> JNull \<longrightarrow> r = r')"

section \<open>Scrape Orchestrator\<close>

text \<open>What the program reaches outside itself through: the two library functions
  \<^verbatim>\<open>json.loads\<close> and \<^verbatim>\<open>json.dumps\<close>, and the requests to the search and to the
  scoring service.\<close>

record env =
  loads :: "string \<Rightarrow> json option"
  dumps :: "json \<Rightarrow> string"
  search_post :: "string \<Rightarrow> string \<Rightarrow> exn + string"
  score_post :: "json \<Rightarrow> json \<Rightarrow> json \<Rightarrow> json \<Rightarrow> string \<Rightarrow> exn + string"

definition SCORE_THRESHOLD :: int where
  "SCORE_THRESHOLD = 80"

text \<open>\<^verbatim>\<open>str(e)\<close>; for the exceptions of the interpreter and the libraries the model
  keeps the name of the exception as its text.\<close>

fun exn_str :: "exn \<Rightarrow> string" where
  "exn_str (HTTPError m) = m"
| "exn_str JSONDecodeError = ''JSONDecodeError''"
| "exn_str AttributeError = ''AttributeError''"
| "exn_str TypeError = ''TypeError''"
| "exn_str IntegrityError = ''IntegrityError''"
| "exn_str DataError = ''DataError''"
| "exn_str ProgrammingError = ''ProgrammingError''"
| "exn_str ValueError = ''ValueError''"
| "exn_str NotModelled = ''NotModelled''"

text \<open>\<^verbatim>\<open>score_roles_batch\<close> (scorer.py, lines 103 to 124): every exception of one
  role's scoring is replaced by the zero-score result.\<close>

definition scoring_error :: "exn \<Rightarrow> json" where
  "scoring_error e =
     error_result (''Scoring error: '' @ exn_str e) (''Error during scoring: '' @ exn_str e)"

definition score_one :: "env \<Rightarrow> json \<Rightarrow> string \<Rightarrow> json" where
  "score_one ev role company_name =
     (case then_do (dict_get_default role ''title'' (JStr [])) (\<lambda>t.
           then_do (dict_get_default role ''description'' (JStr [])) (\<lambda>d.
           then_do (dict_get_default role ''location'' (JStr [])) (\<lambda>l.
           then_do (dict_get_default role ''seniority'' (JStr [])) (\<lambda>s.
             score_role (loads ev) (score_post ev) t d l s company_name)))) of
        Inl e \<Rightarrow> scoring_error e
      | Inr result \<Rightarrow> result)"

definition score_roles_batch :: "env \<Rightarrow> json list \<Rightarrow> string \<Rightarrow> (json \<times> json) list" where
  "score_roles_batch ev roles' company_name =
     map (\<lambda>role. (role, score_one ev role company_name)) roles'"

text \<open>The process: the store, the module variable \<^verbatim>\<open>_scrape_status\<close> of api.py, and
  the clock that the store's operations read, which advances with each of them.\<close>

datatype progress = Blank | Scraping string | Scoring nat string | Done

record run_status =
  is_running :: bool
  current_company :: "string option"
  progress :: progress

record app =
  db :: store
  scrape_status :: run_status
  clock :: nat

definition startup :: "store \<Rightarrow> nat \<Rightarrow> app" where
  "startup st t =
     \<lparr>db = st,
      scrape_status = \<lparr>is_running = False, current_company = None, progress = Blank\<rparr>,
      clock = t\<rparr>"

text \<open>\<^verbatim>\<open>raw_posted = role.get("posted_date")\<close> and
  \<^verbatim>\<open>posted_date = raw_posted if raw_posted and raw_posted != "Not specified" else None\<close>
  (api.py, lines 145 and 146).\<close>

definition posted_date_of :: "json \<Rightarrow> exn + json" where
  "posted_date_of role =
     then_do (dict_get role ''posted_date'') (\<lambda>raw_posted.
       Inr (case raw_posted of
              None \<Rightarrow> JNull
            | Some v \<Rightarrow> if truthy v \<and> v \<noteq> JStr ''Not specified'' then v else JNull))"

text \<open>\<^verbatim>\<open>total_score >= SCORE_THRESHOLD\<close>: a comparison of numbers, a boolean counting
  as 0 or 1; it raises \<^verbatim>\<open>TypeError\<close> for a score that is no number.\<close>

fun ge_threshold :: "json \<Rightarrow> exn + bool" where
  "ge_threshold (JInt n) = Inr (SCORE_THRESHOLD \<le> n)"
| "ge_threshold (JFloat q) = Inr (of_int SCORE_THRESHOLD \<le> q)"
| "ge_threshold (JBool b) = Inr (SCORE_THRESHOLD \<le> (if b then 1 else 0))"
| "ge_threshold JNull = Inl TypeError"
| "ge_threshold (JStr s) = Inl TypeError"
| "ge_threshold (JArr xs) = Inl TypeError"
| "ge_threshold (JObj kvs) = Inl TypeError"

text \<open>What the driver and the database make of a Python number that is bound to the
  \<^verbatim>\<open>INTEGER\<close> column \<^verbatim>\<open>score\<close>: an \<^verbatim>\<open>int\<close> is itself; a \<^verbatim>\<open>float\<close> arrives as a
  decimal literal and is rounded to the nearest integer, a half away from zero; a boolean
  is refused. The pipeline binds nothing else, since the comparison with the threshold
  comes first.\<close>

definition round_half_away :: "rat \<Rightarrow> int" where
  "round_half_away q = (if 0 \<le> q then \<lfloor>q + 1 / 2\<rfloor> else - \<lfloor>- q + 1 / 2\<rfloor>)"

fun bind_integer :: "json \<Rightarrow> exn + int" where
  "bind_integer (JInt n) = Inr n"
| "bind_integer (JFloat q) = Inr (round_half_away q)"
| "bind_integer (JBool b) = Inl ProgrammingError"
| "bind_integer JNull = Inl NotModelled"
| "bind_integer (JStr s) = Inl NotModelled"
| "bind_integer (JArr xs) = Inl NotModelled"
| "bind_integer (JObj kvs) = Inl NotModelled"

text \<open>The call \<^verbatim>\<open>db.upsert_role(company_id=company["id"], title=role.get("title", "Unknown"), ...)\<close>
  that api.py (lines 148 to 159) and scheduler.py (lines 34 to 44) both make; the
  scheduler's call leaves \<^verbatim>\<open>posted_date\<close> to its default \<^verbatim>\<open>None\<close>.\<close>

definition upsert_scored ::
  "env \<Rightarrow> nat \<Rightarrow> store \<Rightarrow> company \<Rightarrow> json \<Rightarrow> json \<Rightarrow> json \<Rightarrow> json \<Rightarrow> exn + store" where
  "upsert_scored ev now st company' role score_result total_score posted_date' =
     then_do (dict_get_default role ''title'' (JStr ''Unknown'')) (\<lambda>t.
     then_do (dict_get_default role ''url'' (JStr [])) (\<lambda>u.
     then_do (dict_get_default role ''location'' (JStr [])) (\<lambda>l.
     then_do (dict_get_default role ''description'' (JStr [])) (\<lambda>d.
     then_do (dict_get_default role ''seniority'' (JStr [])) (\<lambda>s.
     then_do (dict_get_default role ''department'' (JStr [])) (\<lambda>p.
     then_do (dict_get_default score_result ''breakdown'' (JObj [])) (\<lambda>b.
     then_do (bind_integer total_score) (\<lambda>n.
       upsert_role (dumps ev) now st (c_id company') t u l d s p n b posted_date'))))))))"

text \<open>One turn of the loop over the scored roles in \<^verbatim>\<open>_run_scrape\<close> (api.py, lines 140
  to 159): the new store and whether the role met the threshold.\<close>

definition api_store_role ::
  "env \<Rightarrow> nat \<Rightarrow> store \<Rightarrow> company \<Rightarrow> json \<Rightarrow> json \<Rightarrow> exn + (store \<times> bool)" where
  "api_store_role ev now st company' role score_result =
     then_do (dict_get_default score_result ''total_score'' (JInt 0)) (\<lambda>total_score.
     then_do (ge_threshold total_score) (\<lambda>qualified.
     then_do (posted_date_of role) (\<lambda>posted_date'.
     then_do (upsert_scored ev now st company' role score_result total_score posted_date')
       (\<lambda>st'. Inr (st', qualified)))))"

text \<open>The same turn in \<^verbatim>\<open>scheduled_scrape\<close> (scheduler.py, lines 29 to 44).\<close>

definition sched_store_role ::
  "env \<Rightarrow> nat \<Rightarrow> store \<Rightarrow> company \<Rightarrow> json \<Rightarrow> json \<Rightarrow> exn + (store \<times> bool)" where
  "sched_store_role ev now st company' role score_result =
     then_do (dict_get_default score_result ''total_score'' (JInt 0)) (\<lambda>total_score.
     then_do (ge_threshold total_score) (\<lambda>qualified.
     then_do (upsert_scored ev now st company' role score_result total_score JNull)
       (\<lambda>st'. Inr (st', qualified))))"

text \<open>The loop over the scored roles, for either turn. Every upsert commits, so the
  rows written before an exception stay; the count is the number of qualified roles.\<close>

fun store_all ::
  "(nat \<Rightarrow> store \<Rightarrow> json \<Rightarrow> json \<Rightarrow> exn + (store \<times> bool)) \<Rightarrow> (json \<times> json) list \<Rightarrow> nat \<Rightarrow>
   app \<Rightarrow> app \<times> (exn + nat)" where
  "store_all turn [] qualified_count a = (a, Inr qualified_count)"
| "store_all turn (p # ps) qualified_count a =
     (case turn (clock a) (db a) (fst p) (snd p) of
        Inl e \<Rightarrow> (a\<lparr>db := after_refusal (db a) e, clock := clock a + 1\<rparr>, Inl e)
      | Inr (st', qualified) \<Rightarrow>
          store_all turn ps (if qualified then qualified_count + 1 else qualified_count)
            (a\<lparr>db := st', clock := clock a + 1\<rparr>))"

definition log_completed :: "app \<Rightarrow> company \<Rightarrow> nat \<Rightarrow> nat \<Rightarrow> app" where
  "log_completed a company' found qualified =
     (let a1 = a\<lparr>db := update_company_scraped (clock a) (db a) (c_id company'),
                 clock := clock a + 1\<rparr>
      in a1\<lparr>db := log_scrape (clock a1) (db a1) (c_id company') found qualified
                     ''completed'' None,
            clock := clock a1 + 1\<rparr>)"

definition log_error :: "app \<Rightarrow> company \<Rightarrow> exn \<Rightarrow> app" where
  "log_error a company' e =
     a\<lparr>db := log_scrape (clock a) (db a) (c_id company') 0 0 ''error'' (Some (exn_str e)),
       clock := clock a + 1\<rparr>"

text \<open>The body of the loop over the companies in \<^verbatim>\<open>_run_scrape\<close> (api.py, lines 129
  to 165).\<close>

definition scrape_company :: "env \<Rightarrow> app \<Rightarrow> company \<Rightarrow> app" where
  "scrape_company ev a company' =
     (let a1 = a\<lparr>scrape_status := (scrape_status a)
                   \<lparr>current_company := Some (c_name company'),
                    progress := Scraping (c_name company')\<rparr>\<rparr>
      in case scrape_company_roles (loads ev) (search_post ev) (c_name company')
                (careers_url company') of
           Inl e \<Rightarrow> log_error a1 company' e
         | Inr roles' \<Rightarrow>
             (let a2 = a1\<lparr>scrape_status := (scrape_status a1)
                           \<lparr>progress := Scoring (length roles') (c_name company')\<rparr>\<rparr>;
                  scored = score_roles_batch ev roles' (c_name company')
              in case store_all (\<lambda>now st. api_store_role ev now st company') scored 0 a2 of
                   (a3, Inl e) \<Rightarrow> log_error a3 company' e
                 | (a3, Inr qualified_count) \<Rightarrow>
                     log_completed a3 company' (length roles') qualified_count))"

text \<open>\<^verbatim>\<open>_run_scrape\<close> (api.py, lines 120 to 167). \<open>keep_selected\<close> is the filter on
  the rows that the store returned; \<open>run_scrape_over\<close> is the run given those rows after
  the filter, in the order in which the store returned them; \<open>run_scrape\<close> is the run
  when the store returns the active companies in the order of their insertion, and
  \<open>run_companies\<close> says of a list that the run may have it to loop over.\<close>

definition keep_selected :: "int list option \<Rightarrow> company list \<Rightarrow> company list" where
  "keep_selected company_ids cs =
     (case company_ids of
        None \<Rightarrow> cs
      | Some ids \<Rightarrow> if ids = [] then cs else filter (\<lambda>c. c_id c \<in> set ids) cs)"

definition select_companies :: "store \<Rightarrow> int list option \<Rightarrow> company list" where
  "select_companies st company_ids = keep_selected company_ids (get_active_companies st)"


definition run_scrape_over :: "env \<Rightarrow> app \<Rightarrow> company list \<Rightarrow> app" where
  "run_scrape_over ev a cs =
     (let a1 = a\<lparr>scrape_status := (scrape_status a)\<lparr>is_running := True\<rparr>\<rparr>;
          a2 = foldl (scrape_company ev) a1 cs
      in a2\<lparr>scrape_status :=
              \<lparr>is_running = False, current_company = None, progress = Done\<rparr>\<rparr>)"

definition run_scrape :: "env \<Rightarrow> app \<Rightarrow> int list option \<Rightarrow> app" where
  "run_scrape ev a company_ids = run_scrape_over ev a (select_companies (db a) company_ids)"

section \<open>Scheduler\<close>

text \<open>\<^verbatim>\<open>scheduled_scrape\<close> (scheduler.py, lines 15 to 54). It neither reads nor writes
  \<^verbatim>\<open>_scrape_status\<close>.\<close>

definition sched_company :: "env \<Rightarrow> app \<Rightarrow> company \<Rightarrow> app" where
  "sched_company ev a company' =
     (case scrape_company_roles (loads ev) (search_post ev) (c_name company')
             (careers_url company') of
        Inl e \<Rightarrow> log_error a company' e
      | Inr roles' \<Rightarrow>
          (let scored = score_roles_batch ev roles' (c_name company')
           in case store_all (\<lambda>now st. sched_store_role ev now st company') scored 0 a of
                (a3, Inl e) \<Rightarrow> log_error a3 company' e
              | (a3, Inr qualified_count) \<Rightarrow>
                  log_completed a3 company' (length roles') qualified_count))"

definition scheduled_scrape :: "env \<Rightarrow> app \<Rightarrow> app" where
  "scheduled_scrape ev a = foldl (sched_company ev) a (get_active_companies (db a))"

section \<open>Query and command surface\<close>

text \<open>\<^verbatim>\<open>if company_id:\<close> holds for an id that is given and is not 0.\<close>

fun given_id :: "int option \<Rightarrow> bool" where
  "given_id None = False"
| "given_id (Some i) = (i \<noteq> 0)"

text \<open>\<^verbatim>\<open>_normalize_role\<close> renames columns and decodes a breakdown that is a string,
  taking the empty dict when it does not decode.\<close>

definition normalize_role ::
  "(string \<Rightarrow> json option) \<Rightarrow> role_row \<times> company \<Rightarrow> role_row \<times> company" where
  "normalize_role loads' rc =
     (case score_breakdown (fst rc) of
        JStr s \<Rightarrow>
          ((fst rc)\<lparr>score_breakdown := (case loads' s of Some v \<Rightarrow> v | None \<Rightarrow> JObj [])\<rparr>,
           snd rc)
      | _ \<Rightarrow> rc)"

text \<open>\<^verbatim>\<open>list_roles\<close> (api.py, lines 96 to 104).\<close>

definition list_roles ::
  "(string \<Rightarrow> json option) \<Rightarrow> store \<Rightarrow> bool \<Rightarrow> int option \<Rightarrow> (role_row \<times> company) list" where
  "list_roles loads' st qualified_only company_id' =
     map (normalize_role loads')
       (if given_id company_id' then get_roles_by_company st (the company_id')
        else if qualified_only then get_qualified_roles st SCORE_THRESHOLD
        else get_all_roles st)"

text \<open>\<^verbatim>\<open>trigger_scrape\<close> (api.py, lines 170 to 177): the conflict response, or the
  argument with which \<^verbatim>\<open>_run_scrape\<close> is queued as a background task.\<close>

definition trigger_scrape :: "run_status \<Rightarrow> int option \<Rightarrow> (nat \<times> string) + int list option" where
  "trigger_scrape st company_id' =
     (if is_running st then Inl (409, ''Scrape already in progress'')
      else Inr (if given_id company_id' then Some [the company_id'] else None))"

section \<open>The two triggers\<close>

text \<open>
  The server as the sequence of what happens to it. A request to \<^verbatim>\<open>/api/scrape\<close> is
  answered by \<^verbatim>\<open>trigger_scrape\<close>, which only reads the flag and queues the task; the
  queued task later starts \<^verbatim>\<open>_run_scrape\<close>, whose first statement sets the flag and
  whose last one clears it; the scheduler starts \<^verbatim>\<open>scheduled_scrape\<close>, which has no
  statement on the flag (one instance of the job at a time, the scheduler's default).
\<close>

datatype run = ManualRun | ScheduledRun

datatype event = Request | TaskStarts | ManualRunEnds | SchedulerFires | ScheduledRunEnds

record server =
  flag :: run_status
  queued :: nat
  in_progress :: "run list"

definition idle :: server where
  "idle = \<lparr>flag = \<lparr>is_running = False, current_company = None, progress = Blank\<rparr>,
           queued = 0, in_progress = []\<rparr>"

definition accepted :: "server \<Rightarrow> bool" where
  "accepted s = (case trigger_scrape (flag s) None of Inl _ \<Rightarrow> False | Inr _ \<Rightarrow> True)"

fun step :: "server \<Rightarrow> event \<Rightarrow> server" where
  "step s Request = (if accepted s then s\<lparr>queued := queued s + 1\<rparr> else s)"
| "step s TaskStarts =
     (if queued s = 0 then s
      else s\<lparr>queued := queued s - 1,
             flag := (flag s)\<lparr>is_running := True\<rparr>,
             in_progress := ManualRun # in_progress s\<rparr>)"
| "step s ManualRunEnds =
     (if ManualRun \<in> set (in_progress s)
      then s\<lparr>flag := \<lparr>is_running = False, current_company = None, progress = Done\<rparr>,
             in_progress := remove1 ManualRun (in_progress s)\<rparr>
      else s)"
| "step s SchedulerFires =
     (if ScheduledRun \<in> set (in_progress s) then s
      else s\<lparr>in_progress := ScheduledRun # in_progress s\<rparr>)"
| "step s ScheduledRunEnds = s\<lparr>in_progress := remove1 ScheduledRun (in_progress s)\<rparr>"

definition steps :: "server \<Rightarrow> event list \<Rightarrow> server" where
  "steps s evs = foldl step s evs"

section \<open>The outcome of one company's turn\<close>





definition summary :: "scrape_log \<Rightarrow> string \<times> nat \<times> nat \<times> string option" where
  "summary l = (l_status l, roles_found l, roles_qualified l, l_error l)"




section \<open>Words for the statements on the store\<close>

text \<open>An argument that is \<^verbatim>\<open>None\<close> or a string without a NUL character, which a text
  column takes as it is; the rows with a given company, title and location; the row
  that the \<^verbatim>\<open>UPDATE\<close> of \<^verbatim>\<open>upsert_role\<close> makes of a row; the row that its
  \<^verbatim>\<open>INSERT\<close> adds; and the order of the listings: by descending score, then by
  descending recency.\<close>

definition text_param :: "json \<Rightarrow> bool" where
  "text_param v \<longleftrightarrow> (case v of JNull \<Rightarrow> True | JStr s \<Rightarrow> \<not> has_nul s | _ \<Rightarrow> False)"

definition same_key :: "int \<Rightarrow> json \<Rightarrow> json \<Rightarrow> role_row \<Rightarrow> bool" where
  "same_key cid t l r \<longleftrightarrow> company_id r = cid \<and> title r = t \<and> location r = l"

definition rewritten ::
  "(json \<Rightarrow> string) \<Rightarrow> nat \<Rightarrow> json \<Rightarrow> json \<Rightarrow> json \<Rightarrow> json \<Rightarrow> int \<Rightarrow> json \<Rightarrow> json \<Rightarrow>
   role_row \<Rightarrow> role_row" where
  "rewritten d now u de s p sc b pd r =
     r\<lparr>url := u, description := de, seniority := s, department := p, posted_date := pd,
       score := sc, score_breakdown := (if is_dict b then JStr (d b) else b),
       last_seen_at := now\<rparr>"

definition fresh_row ::
  "(json \<Rightarrow> string) \<Rightarrow> nat \<Rightarrow> int \<Rightarrow> int \<Rightarrow> json \<Rightarrow> json \<Rightarrow> json \<Rightarrow> json \<Rightarrow> json \<Rightarrow> json \<Rightarrow>
   int \<Rightarrow> json \<Rightarrow> json \<Rightarrow> role_row" where
  "fresh_row d now i cid t u l de s p sc b pd =
     \<lparr>r_id = i, company_id = cid, title = t, url = u, location = l, description = de,
      seniority = s, department = p, posted_date = pd, score = sc,
      score_breakdown = (if is_dict b then JStr (d b) else b), status = ''new'',
      first_seen_at = now, last_seen_at = now, applied_at = None\<rparr>"

definition listed_before :: "role_row \<Rightarrow> role_row \<Rightarrow> bool" where
  "listed_before r r' \<longleftrightarrow>
     score r' < score r \<or> (score r = score r' \<and> last_seen_at r' \<le> last_seen_at r)"

section \<open>Example data\<close>

text \<open>Concrete texts, stores and environments at which the statements below are
  evaluated.\<close>

definition quoted :: "string \<Rightarrow> string" where
  "quoted s = CHR 0x22 # s @ [CHR 0x22]"

text \<open>The array \<^verbatim>\<open>[{"title": "PM"}]\<close>.\<close>

definition one_role :: string where
  "one_role = ''[{'' @ quoted ''title'' @ '': '' @ quoted ''PM'' @ ''}]''"

text \<open>A scoring response cut off before its last brace:
  \<^verbatim>\<open>{"total_score": 85, "breakdown": {"core_skills": 20}\<close>.\<close>

definition truncated_response :: string where
  "truncated_response =
     ''{'' @ quoted ''total_score'' @ '': 85, '' @ quoted ''breakdown'' @ '': {'' @
     quoted ''core_skills'' @ '': 20}''"


text \<open>A store with the one company Acme (id 1), and the same store with two roles of
  Acme that have the same score, the second seen later than the first.\<close>

definition acme :: store where
  "acme = add_company 0 init_db ''Acme'' ''https://acme.example/careers''"

definition acme_company :: company where
  "acme_company = \<lparr>c_id = 1, c_name = ''Acme'', careers_url = ''https://acme.example/careers'',
                     active = 1, created_at = 0, last_scraped_at = None\<rparr>"

definition plain_role :: "int \<Rightarrow> string \<Rightarrow> int \<Rightarrow> nat \<Rightarrow> role_row" where
  "plain_role i t sc seen =
     \<lparr>r_id = i, company_id = 1, title = JStr t, url = JStr [], location = JStr ''London'',
      description = JStr [], seniority = JStr [], department = JStr [], posted_date = JNull,
      score = sc, score_breakdown = JStr ''{}'', status = ''new'', first_seen_at = seen,
      last_seen_at = seen, applied_at = None\<rparr>"

definition two_roles :: store where
  "two_roles = acme\<lparr>roles := [plain_role 1 ''PM'' 90 1, plain_role 2 ''BD'' 90 2],
                     role_seq := 3\<rparr>"

text \<open>\<^verbatim>\<open>json.dumps\<close> at the only dict the examples serialise, the empty one.\<close>

definition dumps_empty :: "json \<Rightarrow> string" where
  "dumps_empty v = ''{}''"

text \<open>An environment whose services answer every request with the same two texts.\<close>

definition fixed_env :: "string \<Rightarrow> string \<Rightarrow> env" where
  "fixed_env roles_text score_text =
     \<lparr>loads = json_loads, dumps = dumps_empty,
      search_post = (\<lambda>n u. Inr roles_text),
      score_post = (\<lambda>t d l s c. Inr score_text)\<rparr>"


definition good_score :: json where
  "good_score = JObj [(''total_score'', JInt 85), (''breakdown'', JObj [])]"


text \<open>The arrays \<^verbatim>\<open>[{"title": "PM", "posted_date": ""}]\<close> and
  \<^verbatim>\<open>[{"title": "PM", "posted_date": "2024-05-01"}]\<close>, and the scoring response
  \<^verbatim>\<open>{"total_score": 85}\<close>.\<close>

definition blank_date_role :: string where
  "blank_date_role =
     ''[{'' @ quoted ''title'' @ '': '' @ quoted ''PM'' @ '', '' @ quoted ''posted_date'' @
     '': '' @ quoted [] @ ''}]''"

definition dated_role :: string where
  "dated_role =
     ''[{'' @ quoted ''title'' @ '': '' @ quoted ''PM'' @ '', '' @ quoted ''posted_date'' @
     '': '' @ quoted ''2024-05-01'' @ ''}]''"

definition score_85 :: string where
  "score_85 = ''{'' @ quoted ''total_score'' @ '': 85}''"



text \<open>Acme with a role scored 90 and one scored 40; with a role scored 79 and one scored
  80; and with one role that the user has marked as applied at time 3.\<close>

definition mixed_roles :: store where
  "mixed_roles = acme\<lparr>roles := [plain_role 1 ''PM'' 90 1, plain_role 2 ''BD'' 40 2],
                       role_seq := 3\<rparr>"

definition threshold_roles :: store where
  "threshold_roles = acme\<lparr>roles := [plain_role 1 ''PM'' 79 1, plain_role 2 ''BD'' 80 2],
                           role_seq := 3\<rparr>"

definition applied_role :: role_row where
  "applied_role = (plain_role 1 ''PM'' 70 1)\<lparr>status := ''applied'', applied_at := Some 3\<rparr>"

definition applied_store :: store where
  "applied_store = acme\<lparr>roles := [applied_role], role_seq := 2\<rparr>"

text \<open>The arrays \<^verbatim>\<open>[{"title": "PM", "location": null}]\<close> and
  \<^verbatim>\<open>[{"title": "PM", "location": "London"}]\<close>.\<close>

definition unplaced_role :: string where
  "unplaced_role =
     ''[{'' @ quoted ''title'' @ '': '' @ quoted ''PM'' @ '', '' @ quoted ''location'' @
     '': null}]''"

definition london_role :: string where
  "london_role =
     ''[{'' @ quoted ''title'' @ '': '' @ quoted ''PM'' @ '', '' @ quoted ''location'' @
     '': '' @ quoted ''London'' @ ''}]''"

text \<open>The two orders of the two roles of \<open>two_roles\<close>.\<close>

definition older_first :: "(role_row \<times> company) list" where
  "older_first = [(plain_role 1 ''PM'' 90 1, acme_company), (plain_role 2 ''BD'' 90 2, acme_company)]"

definition newer_first :: "(role_row \<times> company) list" where
  "newer_first = [(plain_role 2 ''BD'' 90 2, acme_company), (plain_role 1 ''PM'' 90 1, acme_company)]"

text \<open>A role with a date, and the store after the manual run's turn for it at time 7.\<close>

definition posted_role :: json where
  "posted_role = JObj [(''title'', JStr ''PM''), (''location'', JStr ''London''),
                       (''posted_date'', JStr ''2024-05-01'')]"

definition posted_after_turn :: store where
  "posted_after_turn =
     acme\<lparr>roles :=
            [\<lparr>r_id = 1, company_id = 1, title = JStr ''PM'', url = JStr [],
              location = JStr ''London'', description = JStr [], seniority = JStr [],
              department = JStr [], posted_date = JStr ''2024-05-01'', score = 85,
              score_breakdown = JStr ''{}'', status = ''new'', first_seen_at = 7,
              last_seen_at = 7, applied_at = None\<rparr>],
          role_seq := 2\<rparr>"



text \<open>The scoring responses \<^verbatim>\<open>{"total_score": 85.5}\<close> and
  \<^verbatim>\<open>{"total_score": 2147483648}\<close>, and the arrays
  \<^verbatim>\<open>[{"title": "PM", "location": ["London", "Remote"]}]\<close> and
  \<^verbatim>\<open>[{"title": "PM", "posted_date": 20240501}]\<close>.\<close>

definition fractional_response :: string where
  "fractional_response = ''{'' @ quoted ''total_score'' @ '': 85.5}''"

definition wide_response :: string where
  "wide_response = ''{'' @ quoted ''total_score'' @ '': 2147483648}''"

definition two_places_role :: string where
  "two_places_role =
     ''[{'' @ quoted ''title'' @ '': '' @ quoted ''PM'' @ '', '' @ quoted ''location'' @
     '': ['' @ quoted ''London'' @ '', '' @ quoted ''Remote'' @ '']}]''"

definition numbered_date_role :: string where
  "numbered_date_role =
     ''[{'' @ quoted ''title'' @ '': '' @ quoted ''PM'' @ '', '' @ quoted ''posted_date'' @
     '': 20240501}]''"

section \<open>Lemmas on strings\<close>

lemma split_lines_not_Nil: "split_lines s \<noteq> []"
  by (induction s) (auto split: list.splits)

lemma split_lines_append: "split_lines (a @ newline # b) = split_lines a @ split_lines b"
  by (induction a) (auto split: list.splits simp: split_lines_not_Nil)

lemma split_lines_one: "newline \<notin> set s \<Longrightarrow> split_lines s = [s]"
  by (induction s) auto

lemma join_lines_Cons: "ls \<noteq> [] \<Longrightarrow> join_lines (l # ls) = l @ newline # join_lines ls"
  by (cases ls) auto

lemma join_split_lines: "join_lines (split_lines s) = s"
proof (induction s)
  case Nil
  then show ?case by simp
next
  case (Cons c cs)
  show ?case
  proof (cases "c = newline")
    case True
    with Cons show ?thesis by (simp add: join_lines_Cons split_lines_not_Nil)
  next
    case False
    obtain l ls where sp: "split_lines cs = l # ls"
      using split_lines_not_Nil[of cs] by (cases "split_lines cs") auto
    with Cons False show ?thesis by (cases ls) auto
  qed
qed

lemma strip_unchanged:
  assumes "s \<noteq> []" "\<not> py_space (hd s)" "\<not> py_space (last s)"
  shows "strip s = s"
proof -
  have "dropWhile py_space s = s" using assms by (cases s) auto
  moreover have "dropWhile py_space (rev s) = rev s"
    using assms by (cases "rev s") (auto simp: last_rev hd_rev)
  ultimately show ?thesis by (simp add: strip_def)
qed

lemma startswith_fence: "startswith (fence @ s) fence"
  by (simp add: startswith_def)

lemma fence_facts:
  "fence \<noteq> []" "hd fence = CHR 0x60" "last fence = CHR 0x60" "newline \<notin> set fence"
  by (simp_all add: fence_def newline_def)

lemma not_space_backtick: "\<not> py_space (CHR 0x60)"
  by (simp add: py_space_def)

lemma dropWhile_all: "list_all P xs \<Longrightarrow> dropWhile P (xs @ ys) = dropWhile P ys"
  by (induction xs) auto

lemma strip_padded:
  assumes "list_all py_space pre" "list_all py_space post"
    and "s \<noteq> []" "\<not> py_space (hd s)" "\<not> py_space (last s)"
  shows "strip (pre @ s @ post) = s"
proof -
  have "dropWhile py_space (s @ post) = s @ post"
    using assms(3,4) by (cases s) auto
  then have a: "dropWhile py_space (pre @ s @ post) = s @ post"
    using assms(1) by (simp add: dropWhile_all)
  have "list_all py_space (rev post)" using assms(2) by (simp add: list_all_iff)
  then have "dropWhile py_space (rev post @ rev s) = dropWhile py_space (rev s)"
    by (rule dropWhile_all)
  also have "\<dots> = rev s"
    using assms(3,5) by (cases "rev s") (auto simp: last_rev hd_rev)
  finally have b: "dropWhile py_space (rev (s @ post)) = rev s" by simp
  show ?thesis by (simp only: strip_def a b rev_rev_ident)
qed

text \<open>A fence whose two markers stand on lines of their own is removed exactly, with
  the white space around it.\<close>

lemma strip_fence_fenced:
  assumes "newline \<notin> set lang" "list_all py_space pre" "list_all py_space post"
  shows "strip_fence (pre @ fence @ lang @ newline # t @ newline # fence @ post) = t"
proof -
  let ?w = "fence @ lang @ newline # t @ newline # fence"
  have "strip (pre @ ?w @ post) = ?w"
    by (rule strip_padded[OF assms(2,3)]) (simp_all add: fence_facts not_space_backtick)
  then have s: "strip (pre @ fence @ lang @ newline # t @ newline # fence @ post) = ?w"
    by simp
  have "startswith ?w fence" by (rule startswith_fence)
  moreover have "split_lines ?w = (fence @ lang) # split_lines t @ [fence]"
  proof -
    have "?w = (fence @ lang) @ newline # (t @ newline # fence)" by simp
    then have "split_lines ?w = split_lines (fence @ lang) @ split_lines (t @ newline # fence)"
      by (simp only: split_lines_append)
    then show ?thesis
      using assms(1) by (simp add: split_lines_append split_lines_one fence_facts)
  qed
  ultimately show ?thesis
    unfolding strip_fence_def s by (simp add: join_split_lines)
qed

lemma strip_fence_plain: "\<not> startswith (strip t) fence \<Longrightarrow> strip_fence t = strip t"
  by (simp add: strip_fence_def)

section \<open>Lemmas on the store and the turns\<close>

lemma find_Some_set: "find P xs = Some x \<Longrightarrow> x \<in> set xs \<and> P x"
  by (induction xs) (auto split: if_splits)

lemma then_do_Inr: "then_do m f = Inr y \<longleftrightarrow> (\<exists>x. m = Inr x \<and> f x = Inr y)"
  by (cases m) (auto simp: then_do_def)

lemma then_do_simps: "then_do (Inr x) f = f x" "then_do (Inl e) f = Inl e"
  by (simp_all add: then_do_def)


lemma bind_text_null: "bind_text v = Inr x \<Longrightarrow> (x = JNull \<longleftrightarrow> v = JNull)"
  by (cases v) (auto split: if_splits)

lemma bind_text_string: "bind_text (JStr s) = Inr x \<Longrightarrow> x = JStr s"
  by (auto split: if_splits)

text \<open>The row that the two statements leave behind.\<close>

lemma upsert_row_writes:
  assumes "upsert_row now st cid t u l de s p sc bj pd = Inr st'"
  shows "\<exists>r \<in> set (roles st'). company_id r = cid \<and> title r = t \<and> location r = l \<and>
           url r = u \<and> description r = de \<and> seniority r = s \<and> department r = p \<and>
           score r = sc \<and> posted_date r = pd \<and> last_seen_at r = now \<and>
           score_breakdown r = bj"
proof (cases "find (\<lambda>r. company_id r = cid \<and> sql_eq (title r) t \<and> sql_eq (location r) l)
                (roles st)")
  case None
  with assms show ?thesis
    by (auto simp: upsert_row_def Let_def split: if_splits)
next
  case (Some e)
  then have e: "e \<in> set (roles st)" "company_id e = cid" "title e = t" "location e = l"
    by (auto dest!: find_Some_set simp: sql_eq_def)
  let ?e' = "e\<lparr>url := u, description := de, seniority := s, department := p,
                posted_date := pd, score := sc, score_breakdown := bj,
                last_seen_at := now\<rparr>"
  from assms Some have "roles st' =
      map (\<lambda>r. if r_id r = r_id e
                then r\<lparr>url := u, description := de, seniority := s, department := p,
                       posted_date := pd, score := sc, score_breakdown := bj,
                       last_seen_at := now\<rparr>
                else r) (roles st)"
    by (auto simp: upsert_row_def Let_def)
  with e(1) have "?e' \<in> set (roles st')" by force
  with e show ?thesis by (intro bexI[of _ ?e']) auto
qed



lemma upsert_role_Inr:
  assumes "upsert_role d now st cid t u l de s p sc b pd = Inr st'"
  shows "\<exists>t' u' l' de' s' p' bj pd'.
           bind_key t = Inr t' \<and> bind_key l = Inr l' \<and> bind_text pd = Inr pd' \<and>
           in_int4 sc \<and>
           upsert_row now st cid t' u' l' de' s' p' sc bj pd' = Inr st'"
proof -
  from assms obtain t' l' bj u' de' s' p' pd' where
    b: "bind_key t = Inr t'" "bind_key l = Inr l'" "bind_text pd = Inr pd'" and
    r: "(if in_int4 sc then upsert_row now st cid t' u' l' de' s' p' sc bj pd'
         else Inl DataError) = Inr st'"
    unfolding upsert_role_def then_do_Inr by blast
  from r have i: "in_int4 sc" by (auto split: if_splits)
  with r have "upsert_row now st cid t' u' l' de' s' p' sc bj pd' = Inr st'" by simp
  with b i show ?thesis by blast
qed

text \<open>The row that a successful upsert leaves behind.\<close>

lemma upsert_role_writes:
  assumes "upsert_role d now st cid t u l de s p sc b pd = Inr st'"
  shows "\<exists>r \<in> set (roles st'). company_id r = cid \<and> bind_key t = Inr (title r) \<and>
           bind_key l = Inr (location r) \<and> bind_text pd = Inr (posted_date r) \<and>
           score r = sc \<and> in_int4 sc \<and> last_seen_at r = now"
proof -
  from upsert_role_Inr[OF assms] obtain t' u' l' de' s' p' bj pd' where
    b: "bind_key t = Inr t'" "bind_key l = Inr l'" "bind_text pd = Inr pd'" "in_int4 sc" and
    r: "upsert_row now st cid t' u' l' de' s' p' sc bj pd' = Inr st'" by blast
  from upsert_row_writes[OF r] obtain x where
    "x \<in> set (roles st')" "company_id x = cid" "title x = t'" "location x = l'"
    "score x = sc" "posted_date x = pd'" "last_seen_at x = now" by blast
  with b show ?thesis by (intro bexI[of _ x]) auto
qed


lemma upsert_scored_Inr:
  assumes "upsert_scored ev now st c role sr tot pd = Inr st'"
  shows "\<exists>t u l de s p b n.
           dict_get_default role ''title'' (JStr ''Unknown'') = Inr t \<and>
           dict_get_default role ''location'' (JStr []) = Inr l \<and>
           bind_integer tot = Inr n \<and>
           upsert_role (dumps ev) now st (c_id c) t u l de s p n b pd = Inr st'"
  using assms unfolding upsert_scored_def then_do_Inr by blast

lemma api_store_role_Inr:
  assumes "api_store_role ev now st c role sr = Inr (st', q)"
  shows "\<exists>tot pd. dict_get_default sr ''total_score'' (JInt 0) = Inr tot \<and>
           ge_threshold tot = Inr q \<and>
           posted_date_of role = Inr pd \<and>
           upsert_scored ev now st c role sr tot pd = Inr st'"
  using assms unfolding api_store_role_def then_do_Inr by auto


lemma posted_date_of_Inr:
  assumes "dict_get role ''posted_date'' = Inr raw" "posted_date_of role = Inr pd"
  shows "(pd = JNull \<longleftrightarrow> (case raw of None \<Rightarrow> True
                          | Some v \<Rightarrow> \<not> truthy v \<or> v = JStr ''Not specified'')) \<and>
         (pd \<noteq> JNull \<longrightarrow> raw = Some pd)"
  using assms
  by (cases raw) (auto simp: posted_date_of_def then_do_simps split: if_splits)


text \<open>The row that a turn of either run leaves behind.\<close>

lemma turn_writes:
  assumes "upsert_scored ev now st c role sr tot pd = Inr st'"
  shows "\<exists>r \<in> set (roles st').
           company_id r = c_id c \<and> last_seen_at r = now \<and>
           then_do (dict_get_default role ''title'' (JStr ''Unknown'')) bind_key =
             Inr (title r) \<and>
           then_do (dict_get_default role ''location'' (JStr [])) bind_key =
             Inr (location r) \<and>
           bind_text pd = Inr (posted_date r) \<and>
           bind_integer tot = Inr (score r) \<and> in_int4 (score r)"
proof -
  from upsert_scored_Inr[OF assms] obtain t u l de s p b n where
    t: "dict_get_default role ''title'' (JStr ''Unknown'') = Inr t" and
    l: "dict_get_default role ''location'' (JStr []) = Inr l" and
    n: "bind_integer tot = Inr n" and
    ur: "upsert_role (dumps ev) now st (c_id c) t u l de s p n b pd = Inr st'" by blast
  from upsert_role_writes[OF ur] obtain r where
    r: "r \<in> set (roles st')" "company_id r = c_id c" "bind_key t = Inr (title r)"
       "bind_key l = Inr (location r)" "bind_text pd = Inr (posted_date r)"
       "score r = n" "in_int4 n" "last_seen_at r = now" by blast
  with t l n show ?thesis
    by (intro bexI[of _ r]) (simp_all add: then_do_simps)
qed













section \<open>Lemmas on the schema's constraints and the upsert\<close>

lemma wf_storeD:
  assumes "wf_store st"
  shows "distinct (map c_id (companies st))"
    and "distinct (map c_name (companies st))"
    and "distinct (map r_id (roles st))"
    and "\<forall>c \<in> set (companies st). 1 \<le> c_id c \<and> c_id c < company_seq st"
    and "\<forall>r \<in> set (roles st). r_id r < role_seq st \<and> title r \<noteq> JNull \<and>
           company_id r \<in> c_id ` set (companies st)"
    and "\<forall>r \<in> set (roles st). \<forall>r' \<in> set (roles st).
           company_id r = company_id r' \<and> title r = title r' \<and> location r = location r' \<and>
           location r \<noteq> JNull \<longrightarrow> r = r'"
proof -
  note w = assms[unfolded wf_store_def]
  show "distinct (map c_id (companies st))" using w by (elim conjE)
  show "distinct (map c_name (companies st))" using w by (elim conjE)
  show "distinct (map r_id (roles st))" using w by (elim conjE)
  show "\<forall>c \<in> set (companies st). 1 \<le> c_id c \<and> c_id c < company_seq st"
    using w by (elim conjE)
  show "\<forall>r \<in> set (roles st). r_id r < role_seq st \<and> title r \<noteq> JNull \<and>
           company_id r \<in> c_id ` set (companies st)" using w by (elim conjE)
  show "\<forall>r \<in> set (roles st). \<forall>r' \<in> set (roles st).
           company_id r = company_id r' \<and> title r = title r' \<and> location r = location r' \<and>
           location r \<noteq> JNull \<longrightarrow> r = r'" using w by (elim conjE)
qed

lemma wf_storeI:
  assumes "distinct (map c_id (companies st))"
    and "distinct (map c_name (companies st))"
    and "distinct (map r_id (roles st))"
    and "\<forall>c \<in> set (companies st). 1 \<le> c_id c \<and> c_id c < company_seq st"
    and "\<forall>r \<in> set (roles st). r_id r < role_seq st \<and> title r \<noteq> JNull \<and>
           company_id r \<in> c_id ` set (companies st)"
    and "\<forall>r \<in> set (roles st). \<forall>r' \<in> set (roles st).
           company_id r = company_id r' \<and> title r = title r' \<and> location r = location r' \<and>
           location r \<noteq> JNull \<longrightarrow> r = r'"
  shows "wf_store st"
  unfolding wf_store_def using assms by (intro conjI)

lemma wf_unique:
  assumes "wf_store st" "r \<in> set (roles st)" "r' \<in> set (roles st)"
    and "company_id r = company_id r'" "title r = title r'" "location r = location r'"
    and "location r \<noteq> JNull"
  shows "r = r'"
proof -
  have c: "company_id r = company_id r' \<and> title r = title r' \<and> location r = location r' \<and>
           location r \<noteq> JNull"
    using assms(4-7) by (intro conjI)
  show ?thesis by (rule wf_storeD(6)[OF assms(1), rule_format, OF assms(2) assms(3) c])
qed

lemma wf_role:
  assumes "wf_store st" "r \<in> set (roles st)"
  shows "r_id r < role_seq st" "title r \<noteq> JNull" "company_id r \<in> c_id ` set (companies st)"
proof -
  note x = wf_storeD(5)[OF assms(1), rule_format, OF assms(2)]
  show "r_id r < role_seq st" using x by (elim conjE)
  show "title r \<noteq> JNull" using x by (elim conjE)
  show "company_id r \<in> c_id ` set (companies st)" using x by (elim conjE)
qed


lemma filter_only:
  assumes "distinct xs" "x \<in> set xs" "P x" "\<forall>y \<in> set xs. y \<noteq> x \<longrightarrow> \<not> P y"
  shows "filter P xs = [x]"
  using assms
proof (induction xs)
  case Nil
  then show ?case by simp
next
  case (Cons a xs)
  show ?case
  proof (cases "a = x")
    case True
    with Cons.prems(1,4) have "\<forall>y \<in> set xs. \<not> P y" by auto
    then have "filter P xs = []" by (simp add: filter_empty_conv)
    with True Cons.prems(3) show ?thesis by simp
  next
    case False
    with Cons.prems have "\<not> P a" "x \<in> set xs" "distinct xs"
      "\<forall>y \<in> set xs. y \<noteq> x \<longrightarrow> \<not> P y"
      by auto
    with Cons.IH Cons.prems(3) show ?thesis by simp
  qed
qed

lemma rewritten_simps [simp]:
  "r_id (rewritten d now u de s p sc b pd r) = r_id r"
  "company_id (rewritten d now u de s p sc b pd r) = company_id r"
  "title (rewritten d now u de s p sc b pd r) = title r"
  "location (rewritten d now u de s p sc b pd r) = location r"
  "status (rewritten d now u de s p sc b pd r) = status r"
  "applied_at (rewritten d now u de s p sc b pd r) = applied_at r"
  "first_seen_at (rewritten d now u de s p sc b pd r) = first_seen_at r"
  by (simp_all add: rewritten_def)

lemma text_param_bind:
  assumes "text_param v"
  shows "bind_key v = Inr v" "bind_text v = Inr v"
  using assms by (cases v; simp add: text_param_def)+

text \<open>For arguments that the columns take as they are, the upsert is its two
  statements.\<close>

lemma upsert_role_bound:
  assumes "list_all text_param [t, u, l, de, s, p, pd]"
    and "is_dict b \<or> text_param b" and "in_int4 sc"
  shows "upsert_role d now st cid t u l de s p sc b pd =
         upsert_row now st cid t u l de s p sc (if is_dict b then JStr (d b) else b) pd"
proof -
  have "bind_breakdown d b = Inr (if is_dict b then JStr (d b) else b)"
    using assms(2) by (auto simp: bind_breakdown_def text_param_bind)
  then show ?thesis
    using assms(1,3) by (simp add: upsert_role_def then_do_simps text_param_bind)
qed

lemma upsert_row_existing:
  assumes wf: "wf_store st"
    and r0: "r0 \<in> set (roles st)" "same_key cid t l r0" and l: "l \<noteq> JNull"
  shows "upsert_row now st cid t u l de s p sc (if is_dict b then JStr (d b) else b) pd =
           Inr (st\<lparr>roles := map (\<lambda>r. if r_id r = r_id r0
                                        then rewritten d now u de s p sc b pd r else r)
                                 (roles st)\<rparr>)"
proof -
  let ?P = "\<lambda>r. company_id r = cid \<and> sql_eq (title r) t \<and> sql_eq (location r) l"
  from wf_role(2)[OF wf r0(1)] r0(2) have t: "t \<noteq> JNull" by (simp add: same_key_def)
  with r0 l have "?P r0" by (simp add: sql_eq_def same_key_def)
  with r0(1) have "find ?P (roles st) \<noteq> None" by (auto simp: find_None_iff)
  then obtain e where e: "find ?P (roles st) = Some e" by auto
  then have e': "e \<in> set (roles st)" "?P e" by (auto dest: find_Some_set)
  have "e = r0"
  proof (rule wf_unique[OF wf e'(1) r0(1)])
    show "company_id e = company_id r0" using e'(2) r0(2) by (simp add: same_key_def)
    show "title e = title r0" using e'(2) r0(2) by (simp add: same_key_def sql_eq_def)
    show "location e = location r0" using e'(2) r0(2) by (simp add: same_key_def sql_eq_def)
    show "location e \<noteq> JNull" using e'(2) by (simp add: sql_eq_def)
  qed
  with e show ?thesis by (simp add: upsert_row_def rewritten_def)
qed


lemma wf_store_rewrite:
  assumes "wf_store st"
  shows "wf_store (st\<lparr>roles := map (\<lambda>r. if r_id r = i
                                        then rewritten d now u de s p sc b pd r else r)
                                 (roles st)\<rparr>)"
proof -
  define g where "g = (\<lambda>r. if r_id r = i then rewritten d now u de s p sc b pd r else r)"
  define st' where "st' = st\<lparr>roles := map g (roles st)\<rparr>"
  have k: "r_id (g r) = r_id r" "company_id (g r) = company_id r" "title (g r) = title r"
    "location (g r) = location r" for r by (simp_all add: g_def)
  have st': "companies st' = companies st" "company_seq st' = company_seq st"
    "role_seq st' = role_seq st" "roles st' = map g (roles st)"
    by (simp_all add: st'_def)
  have c: "distinct (map c_id (companies st'))" "distinct (map c_name (companies st'))"
    "\<forall>c \<in> set (companies st'). 1 \<le> c_id c \<and> c_id c < company_seq st'"
    using wf_storeD(1,2,4)[OF assms] by (simp_all add: st')
  have d: "distinct (map r_id (roles st'))"
    using wf_storeD(3)[OF assms] by (simp add: st' comp_def k)
  have r: "\<forall>r\<in>set (roles st'). r_id r < role_seq st' \<and> title r \<noteq> JNull \<and>
       company_id r \<in> c_id ` set (companies st')"
  proof
    fix r assume "r \<in> set (roles st')"
    then obtain x where x: "x \<in> set (roles st)" "r = g x" by (auto simp: st')
    from wf_role[OF assms x(1)]
    show "r_id r < role_seq st' \<and> title r \<noteq> JNull \<and>
       company_id r \<in> c_id ` set (companies st')" by (simp add: x(2) k st')
  qed
  have u: "\<forall>r\<in>set (roles st'). \<forall>r'\<in>set (roles st').
          company_id r = company_id r' \<and> title r = title r' \<and> location r = location r' \<and>
          location r \<noteq> JNull \<longrightarrow> r = r'"
  proof (intro ballI impI)
    fix r r'
    assume "r \<in> set (roles st')" "r' \<in> set (roles st')"
    then obtain x x' where x: "x \<in> set (roles st)" "r = g x" "x' \<in> set (roles st)" "r' = g x'"
      by (auto simp: st')
    assume h: "company_id r = company_id r' \<and> title r = title r' \<and>
        location r = location r' \<and> location r \<noteq> JNull"
    note h' = h[unfolded x(2,4) k]
    have a1: "company_id x = company_id x'" using h' by (elim conjE)
    have a2: "title x = title x'" using h' by (elim conjE)
    have a3: "location x = location x'" using h' by (elim conjE)
    have a4: "location x \<noteq> JNull" using h' by (elim conjE)
    have "x = x'" by (rule wf_unique[OF assms x(1) x(3) a1 a2 a3 a4])
    with x show "r = r'" by simp
  qed
  from c(1,2) d c(3) r u have "wf_store st'" by (rule wf_storeI)
  then show ?thesis by (simp add: st'_def g_def)
qed

lemma filter_same_key_existing:
  assumes wf: "wf_store st"
    and r0: "r0 \<in> set (roles st)" "same_key cid t l r0" and l: "l \<noteq> JNull"
  shows "filter (same_key cid t l) (roles st) = [r0]"
proof (rule filter_only)
  show "distinct (roles st)" using wf_storeD(3)[OF wf] by (simp add: distinct_map)
  show "r0 \<in> set (roles st)" by (rule r0(1))
  show "same_key cid t l r0" by (rule r0(2))
  show "\<forall>y\<in>set (roles st). y \<noteq> r0 \<longrightarrow> \<not> same_key cid t l y"
  proof (intro ballI impI notI)
    fix y assume y: "y \<in> set (roles st)" "y \<noteq> r0" "same_key cid t l y"
    have "y = r0"
    proof (rule wf_unique[OF wf y(1) r0(1)])
      show "company_id y = company_id r0" using y(3) r0(2) by (simp add: same_key_def)
      show "title y = title r0" using y(3) r0(2) by (simp add: same_key_def)
      show "location y = location r0" using y(3) r0(2) by (simp add: same_key_def)
      show "location y \<noteq> JNull" using y(3) l by (simp add: same_key_def)
    qed
    with y(2) show False by contradiction
  qed
qed

lemma upsert_row_first:
  assumes wf: "wf_store st"
    and c: "cid \<in> c_id ` set (companies st)" and t: "t \<noteq> JNull" and l: "l \<noteq> JNull"
    and none: "filter (same_key cid t l) (roles st) = []"
  shows "\<exists>st'. upsert_row now st cid t u l de s p sc (if is_dict b then JStr (d b) else b)
                 pd = Inr st' \<and>
           filter (same_key cid t l) (roles st') =
             [fresh_row d now (role_seq st) cid t u l de s p sc b pd] \<and>
           wf_store st'"
proof -
  define new where "new = fresh_row d now (role_seq st) cid t u l de s p sc b pd"
  define st' where "st' = st\<lparr>roles := roles st @ [new], role_seq := role_seq st + 1\<rparr>"
  have nk: "\<forall>r \<in> set (roles st). \<not> same_key cid t l r"
    using none by (simp add: filter_empty_conv)
  have n: "r_id new = role_seq st" "company_id new = cid" "title new = t" "location new = l"
    by (simp_all add: new_def fresh_row_def)
  have "find (\<lambda>r. company_id r = cid \<and> sql_eq (title r) t \<and> sql_eq (location r) l) (roles st)
          = None"
    using nk by (auto simp: find_None_iff same_key_def sql_eq_def)
  then have up: "upsert_row now st cid t u l de s p sc (if is_dict b then JStr (d b) else b)
                   pd = Inr st'"
    using c t by (simp add: upsert_row_def st'_def new_def fresh_row_def)
  have f: "filter (same_key cid t l) (roles st') = [new]"
    using none by (simp add: st'_def same_key_def n)
  have st': "companies st' = companies st" "company_seq st' = company_seq st"
    "role_seq st' = role_seq st + 1" "roles st' = roles st @ [new]"
    by (simp_all add: st'_def)
  have w1: "distinct (map c_id (companies st'))" "distinct (map c_name (companies st'))"
    "\<forall>c \<in> set (companies st'). 1 \<le> c_id c \<and> c_id c < company_seq st'"
    using wf_storeD(1,2,4)[OF wf] by (simp_all add: st')
  have lt: "r_id r < role_seq st" if "r \<in> set (roles st)" for r
    using wf_role(1)[OF wf that] .
  have w2: "distinct (map r_id (roles st'))"
  proof -
    have "role_seq st \<notin> r_id ` set (roles st)" using lt by fastforce
    with wf_storeD(3)[OF wf] show ?thesis by (simp add: st' n)
  qed
  have w3: "\<forall>r\<in>set (roles st'). r_id r < role_seq st' \<and> title r \<noteq> JNull \<and>
       company_id r \<in> c_id ` set (companies st')"
  proof
    fix r assume "r \<in> set (roles st')"
    then consider "r \<in> set (roles st)" | "r = new" by (auto simp: st')
    then show "r_id r < role_seq st' \<and> title r \<noteq> JNull \<and>
       company_id r \<in> c_id ` set (companies st')"
    proof cases
      case 1
      from wf_role[OF wf 1] show ?thesis by (simp add: st')
    next
      case 2
      with c t show ?thesis by (simp add: st' n)
    qed
  qed
  have w4: "\<forall>r\<in>set (roles st'). \<forall>r'\<in>set (roles st').
          company_id r = company_id r' \<and> title r = title r' \<and> location r = location r' \<and>
          location r \<noteq> JNull \<longrightarrow> r = r'"
  proof (intro ballI impI)
    fix r r'
    assume m: "r \<in> set (roles st')" "r' \<in> set (roles st')"
    assume h: "company_id r = company_id r' \<and> title r = title r' \<and>
        location r = location r' \<and> location r \<noteq> JNull"
    have a1: "company_id r = company_id r'" using h by (elim conjE)
    have a2: "title r = title r'" using h by (elim conjE)
    have a3: "location r = location r'" using h by (elim conjE)
    have a4: "location r \<noteq> JNull" using h by (elim conjE)
    from m(1) consider "r \<in> set (roles st)" | "r = new" by (auto simp: st')
    then show "r = r'"
    proof cases
      case 1
      from m(2) consider "r' \<in> set (roles st)" | "r' = new" by (auto simp: st')
      then show ?thesis
      proof cases
        case 1
        with \<open>r \<in> set (roles st)\<close> show ?thesis
          by (intro wf_unique[OF wf _ _ a1 a2 a3 a4])
      next
        case 2
        with a1 a2 a3 n have "same_key cid t l r" by (simp add: same_key_def)
        with nk \<open>r \<in> set (roles st)\<close> show ?thesis by blast
      qed
    next
      case 2
      from m(2) consider "r' \<in> set (roles st)" | "r' = new" by (auto simp: st')
      then show ?thesis
      proof cases
        case 1
        with a1 a2 a3 n 2 have "same_key cid t l r'" by (simp add: same_key_def)
        with nk 1 show ?thesis by blast
      next
        case 2
        with \<open>r = new\<close> show ?thesis by simp
      qed
    qed
  qed
  from w1(1,2) w2 w1(3) w3 w4 have "wf_store st'" by (rule wf_storeI)
  with up f show ?thesis unfolding new_def by blast
qed

lemma filter_singleton_mem: "filter P xs = [x] \<Longrightarrow> x \<in> set xs \<and> P x"
proof -
  assume "filter P xs = [x]"
  then have "x \<in> set (filter P xs)" by simp
  then show ?thesis by simp
qed

section \<open>Lemmas on the listings\<close>

lemma filter_unique_key:
  assumes "distinct (map f xs)" "x \<in> set xs"
  shows "filter (\<lambda>y. f x = f y) xs = [x]"
  using assms
proof (induction xs)
  case Nil
  then show ?case by simp
next
  case (Cons a xs)
  show ?case
  proof (cases "x = a")
    case True
    have "filter (\<lambda>y. f a = f y) xs = []"
      using Cons.prems(1) by (auto simp: filter_empty_conv)
    with True show ?thesis by simp
  next
    case False
    with Cons.prems have x: "x \<in> set xs" "distinct (map f xs)" by auto
    have "f a \<notin> f ` set xs" using Cons.prems(1) by simp
    with x(1) have "f x \<noteq> f a" by (metis imageI)
    with Cons.IH[OF x(2) x(1)] show ?thesis by simp
  qed
qed

lemma join_companies_roles:
  assumes "wf_store st"
  shows "map fst (join_companies st) = roles st"
proof -
  have one: "\<exists>c. filter (\<lambda>c. company_id r = c_id c) (companies st) = [c]"
    if "r \<in> set (roles st)" for r
  proof -
    from assms that obtain c where c: "c \<in> set (companies st)" "company_id r = c_id c"
      by (auto simp: wf_store_def)
    from assms have "distinct (map c_id (companies st))" by (simp add: wf_store_def)
    from filter_unique_key[OF this c(1)] c(2) show ?thesis by auto
  qed
  have "map fst (concat (map (\<lambda>r. map (Pair r) (filter (\<lambda>c. company_id r = c_id c) cs)) rs)) = rs"
    if "\<forall>r \<in> set rs. \<exists>c. filter (\<lambda>c. company_id r = c_id c) cs = [c]"
    for rs :: "role_row list" and cs :: "company list"
    using that by (induction rs) auto
  from this[of "roles st" "companies st"] one show ?thesis
    by (auto simp: join_companies_def)
qed

lemma by_company_rows:
  assumes "wf_store st"
  shows "fst ` set (get_roles_by_company st cid) = {r \<in> set (roles st). company_id r = cid}"
    and "length (get_roles_by_company st cid) =
         length (filter (\<lambda>r. company_id r = cid) (roles st))"
proof -
  let ?j = "join_companies st"
  have m: "map fst ?j = roles st" using assms by (rule join_companies_roles)
  have "fst ` set (get_roles_by_company st cid) = {r \<in> fst ` set ?j. company_id r = cid}"
    by (auto simp: get_roles_by_company_def image_iff)
  also have "fst ` set ?j = set (roles st)" using m by (metis set_map)
  finally show "fst ` set (get_roles_by_company st cid) = {r \<in> set (roles st). company_id r = cid}" .
  have "length (get_roles_by_company st cid) =
        length (filter ((\<lambda>r. company_id r = cid) \<circ> fst) ?j)"
    by (simp add: get_roles_by_company_def case_prod_unfold comp_def)
  also have "\<dots> = length (filter (\<lambda>r. company_id r = cid) (map fst ?j))"
    by (simp add: filter_map)
  finally show "length (get_roles_by_company st cid) =
         length (filter (\<lambda>r. company_id r = cid) (roles st))" using m by simp
qed

lemma normalize_role_id [simp]: "r_id (fst (normalize_role l x)) = r_id (fst x)"
  by (cases "score_breakdown (fst x)") (simp_all add: normalize_role_def)

lemma no_role_of_company_0:
  assumes "wf_store st" "r \<in> set (roles st)"
  shows "company_id r \<noteq> 0"
proof -
  from assms have "company_id r \<in> c_id ` set (companies st)"
    by (auto simp: wf_store_def)
  then obtain c where "c \<in> set (companies st)" "company_id r = c_id c" by auto
  moreover from assms(1) have "\<forall>c \<in> set (companies st). 1 \<le> c_id c"
    by (auto simp: wf_store_def)
  ultimately show ?thesis by fastforce
qed

lemma sorted_by_score_recency:
  "sorted_wrt listed_before (map fst (sort_key (\<lambda>(r, c). (- score r, - int (last_seen_at r))) xs))"
proof -
  let ?k = "\<lambda>(r, c). (- score r, - int (last_seen_at r))"
  have "sorted (map ?k (sort_key ?k xs))" by (rule sorted_sort_key)
  then have "sorted_wrt (\<lambda>x y. ?k x \<le> ?k y) (sort_key ?k xs)"
    by (simp add: sorted_wrt_map)
  then have "sorted_wrt (\<lambda>x y. listed_before (fst x) (fst y)) (sort_key ?k xs)"
    by (rule sorted_wrt_mono_rel[rotated])
       (auto simp: listed_before_def less_eq_prod_def case_prod_unfold)
  then show ?thesis by (simp add: sorted_wrt_map)
qed

lemma sorted_by_score:
  "sorted_wrt (\<lambda>r r'. score r' \<le> score r) (map fst (sort_key (\<lambda>(r, c). - score r) xs))"
proof -
  let ?k = "\<lambda>(r, c). - score r"
  have "sorted (map ?k (sort_key ?k xs))" by (rule sorted_sort_key)
  then have "sorted_wrt (\<lambda>x y. ?k x \<le> ?k y) (sort_key ?k xs)"
    by (simp add: sorted_wrt_map)
  then have "sorted_wrt (\<lambda>x y. score (fst y) \<le> score (fst x)) (sort_key ?k xs)"
    by (rule sorted_wrt_mono_rel[rotated]) (auto simp: case_prod_unfold)
  then show ?thesis by (simp add: sorted_wrt_map)
qed

lemma insert_remove1: "x \<in> set ys \<Longrightarrow> insert x (set (remove1 x ys)) = set ys"
  by (induction ys) auto

lemma is_permutation_set: "is_permutation xs ys \<Longrightarrow> set xs = set ys"
proof (induction xs arbitrary: ys)
  case Nil
  then show ?case by simp
next
  case (Cons x xs)
  then have "x \<in> set ys" "set xs = set (remove1 x ys)" by auto
  with insert_remove1[of x ys] show ?case by simp
qed

lemma is_permutation_mset: "is_permutation xs ys \<longleftrightarrow> mset xs = mset ys"
proof (induction xs arbitrary: ys)
  case Nil
  then show ?case by auto
next
  case (Cons x xs)
  show ?case
  proof (cases "x \<in> set ys")
    case True
    then have e: "mset ys = add_mset x (mset (remove1 x ys))" by simp
    have "mset (x # xs) = mset ys \<longleftrightarrow> mset xs = mset (remove1 x ys)"
      by (subst e) simp
    with Cons.IH[of "remove1 x ys"] True show ?thesis by simp
  next
    case False
    then have "mset (x # xs) \<noteq> mset ys" by (metis list.set_intros(1) mset_eq_setD)
    with False show ?thesis by simp
  qed
qed

lemma sort_key_result: "query_result k xs (sort_key k xs)"
  by (simp add: query_result_def is_permutation_mset)

section \<open>The search client's fence handling (C7)\<close>

text \<open>
  C7 as the spec states it fails: the fence is removed by dropping the first and the last
  line of the text, so when the closing fence stands at the end of the array's last line,
  or the whole fenced text is one line, nothing is left to decode and the result is the
  empty sequence, while the unwrapped array decodes to its one role.
\<close>

theorem fence_layout_counterexample:
  "parse_roles json_loads (fence @ ''json'' @ newline # one_role @ fence) = [] \<and>
   parse_roles json_loads (fence @ one_role @ fence) = [] \<and>
   parse_roles json_loads one_role = [JObj [(''title'', JStr ''PM'')]]"
  by code_simp

text \<open>
  C7, amended: for every text \<open>t\<close> that is a valid JSON array, the response that wraps
  \<open>t\<close> in a fence whose opening marker (with any info string \<open>lang\<close>) and closing
  marker each stand on a line of their own, with any white space \<open>pre\<close> before the
  opening marker and \<open>post\<close> after the closing one, parses to the same sequence of
  roles as \<open>t\<close> unwrapped, whatever the array holds and however \<open>t\<close> is laid out in
  lines. The decoder is a parameter, so what it is to be a valid array is spelt out: the
  text decodes to the array, it still does when the white space around it is stripped,
  and it does not itself begin with a fence.
\<close>

theorem fenced_array_parses_as_unwrapped:
  assumes "loads' t = Some (JArr rs)"
    and "loads' (strip t) = Some (JArr rs)" and "\<not> startswith (strip t) fence"
    and "newline \<notin> set lang" and "list_all py_space pre" and "list_all py_space post"
  shows "parse_roles loads' (pre @ fence @ lang @ newline # t @ newline # fence @ post) = rs \<and>
         parse_roles loads' t = rs"
  using assms by (simp add: parse_roles_def strip_fence_fenced strip_fence_plain)

text \<open>The array, padded with a blank and a line break, in a fence that has a blank
  before it and a line break after it.\<close>

theorem fenced_array_witness:
  "parse_roles json_loads
     ('' '' @ fence @ ''json'' @ newline # ('' '' @ one_role @ [newline]) @ newline # fence @
      [newline]) =
     [JObj [(''title'', JStr ''PM'')]] \<and>
   parse_roles json_loads ('' '' @ one_role @ [newline]) = [JObj [(''title'', JStr ''PM'')]]"
proof -
  let ?t = "'' '' @ one_role @ [newline]"
  have h1: "json_loads ?t = Some (JArr [JObj [(''title'', JStr ''PM'')]])" by code_simp
  have h2: "json_loads (strip ?t) = Some (JArr [JObj [(''title'', JStr ''PM'')]])"
    by code_simp
  have h3: "\<not> startswith (strip ?t) fence" by code_simp
  have h4: "newline \<notin> set ''json''" by code_simp
  have h5: "list_all py_space '' ''" by code_simp
  have h6: "list_all py_space [newline]" by code_simp
  show ?thesis
    by (rule fenced_array_parses_as_unwrapped
          [where loads' = json_loads and t = ?t, OF h1 h2 h3 h4 h5 h6])
qed

section \<open>The scoring client's parse failure (C3)\<close>

text \<open>
  C3 does not hold of \<^verbatim>\<open>score_role\<close>: for a response that has both braces and is not
  JSON between them, such as an object cut off before its last brace, the second
  \<^verbatim>\<open>json.loads\<close> raises and the exception leaves the function. The search client guards
  the same call with a handler of its own.
\<close>

theorem score_role_raises_on_truncated_response:
  "score_role json_loads (score_post (fixed_env [] truncated_response))
     (JStr ''PM'') (JStr []) (JStr ''London'') (JStr ''Senior'') ''Acme'' =
   Inl JSONDecodeError"
  by code_simp

section \<open>Adding a company twice (C9)\<close>



section \<open>The run-state flag (C4)\<close>

text \<open>
  C4 does not hold: a scheduled run is in progress without the flag being set, a request
  that arrives meanwhile is accepted, and once its task starts the two runs overlap.
\<close>

theorem scheduled_run_overlaps_manual_run:
  "(let s1 = step idle SchedulerFires;
        s2 = step s1 Request;
        s3 = step s2 TaskStarts
    in in_progress s1 = [ScheduledRun] \<and> \<not> is_running (flag s1) \<and> accepted s1 \<and>
       in_progress s3 = [ManualRun, ScheduledRun])"
  by code_simp

section \<open>The order of the listings (C5)\<close>

text \<open>
  C5 does not hold of the listing by company: its query sorts by score alone, so the
  order of two roles of one company with equal scores is left to the database, and the
  result with the role seen earlier first is one that the query permits, as is the one
  with the role seen later first. The unfiltered query sorts by score and recency; of the
  two orders it permits only the one that the spec describes.
\<close>

theorem by_company_query_leaves_recency_open:
  "map (\<lambda>(r, c). (r_id r, score r, last_seen_at r)) older_first = [(1, 90, 1), (2, 90, 2)] \<and>
   newer_first = rev older_first \<and>
   roles_by_company_result two_roles 1 older_first \<and>
   roles_by_company_result two_roles 1 newer_first \<and>
   \<not> sorted_wrt listed_before (map fst older_first) \<and>
   sorted_wrt listed_before (map fst newer_first) \<and>
   \<not> all_roles_result two_roles older_first \<and>
   all_roles_result two_roles newer_first"
  by code_simp

text \<open>
  The three listing functions return results that their queries permit.
\<close>

theorem listings_are_results:
  "qualified_roles_result st threshold (get_qualified_roles st threshold) \<and>
   all_roles_result st (get_all_roles st) \<and>
   roles_by_company_result st cid (get_roles_by_company st cid)"
  by (simp add: qualified_roles_result_def all_roles_result_def roles_by_company_result_def
        get_qualified_roles_def get_all_roles_def get_roles_by_company_def sort_key_result)

text \<open>
  Every result that the unfiltered query permits holds the joined rows in the order of
  descending score and then descending recency.
\<close>

theorem all_roles_results_ordered:
  assumes "all_roles_result st res"
  shows "sorted_wrt listed_before (map fst res) \<and> set res = set (join_companies st)"
proof -
  let ?k = "\<lambda>(r, c). (- score r, - int (last_seen_at r))"
  from assms have p: "is_permutation res (join_companies st)" and s: "sorted (map ?k res)"
    by (simp_all add: all_roles_result_def query_result_def)
  from s have "sorted_wrt (\<lambda>x y. ?k x \<le> ?k y) res" by (simp add: sorted_wrt_map)
  then have "sorted_wrt (\<lambda>x y. listed_before (fst x) (fst y)) res"
    by (rule sorted_wrt_mono_rel[rotated])
       (auto simp: listed_before_def less_eq_prod_def case_prod_unfold)
  then have "sorted_wrt listed_before (map fst res)" by (simp add: sorted_wrt_map)
  with is_permutation_set[OF p] show ?thesis by simp
qed

theorem all_roles_results_ordered_witness:
  "all_roles_result two_roles newer_first \<and>
   sorted_wrt listed_before (map fst newer_first) \<and>
   set newer_first = set (join_companies two_roles)"
proof -
  have h: "all_roles_result two_roles newer_first" by code_simp
  from all_roles_results_ordered[OF h] h show ?thesis by blast
qed

text \<open>
  What the three listings do guarantee on a store that satisfies the schema's
  constraints: the qualified listing holds exactly the roles whose score is at least the
  threshold, the unfiltered listing holds every role, both in the order of descending
  score and then descending recency; the listing by company is in the order of
  descending score only.
\<close>

theorem listings_ordered:
  assumes "wf_store st"
  shows "sorted_wrt listed_before (map fst (get_qualified_roles st threshold)) \<and>
         fst ` set (get_qualified_roles st threshold) =
           {r \<in> set (roles st). threshold \<le> score r} \<and>
         length (get_qualified_roles st threshold) =
           length (filter (\<lambda>r. threshold \<le> score r) (roles st)) \<and>
         sorted_wrt listed_before (map fst (get_all_roles st)) \<and>
         fst ` set (get_all_roles st) = set (roles st) \<and>
         length (get_all_roles st) = length (roles st) \<and>
         sorted_wrt (\<lambda>r r'. score r' \<le> score r) (map fst (get_roles_by_company st cid))"
proof -
  let ?j = "join_companies st"
  have m: "map fst ?j = roles st" using assms by (rule join_companies_roles)
  then have s: "fst ` set ?j = set (roles st)" by (metis set_map)
  have l: "length ?j = length (roles st)" using m by (metis length_map)
  have q1: "fst ` set (get_qualified_roles st threshold) =
              {r \<in> fst ` set ?j. threshold \<le> score r}"
    by (auto simp: get_qualified_roles_def image_iff)
  have "length (get_qualified_roles st threshold) =
        length (filter ((\<lambda>r. threshold \<le> score r) \<circ> fst) ?j)"
    by (simp add: get_qualified_roles_def case_prod_unfold comp_def)
  also have "\<dots> = length (filter (\<lambda>r. threshold \<le> score r) (map fst ?j))"
    by (simp add: filter_map)
  finally have q2: "length (get_qualified_roles st threshold) =
           length (filter (\<lambda>r. threshold \<le> score r) (roles st))" using m by simp
  show ?thesis
    using q1 q2 s l
    by (simp add: sorted_by_score_recency sorted_by_score get_qualified_roles_def
          get_all_roles_def get_roles_by_company_def)
qed

theorem listings_ordered_witness:
  "wf_store threshold_roles \<and>
   map (\<lambda>(r, c). (r_id r, score r)) (get_qualified_roles threshold_roles 80) = [(2, 80)] \<and>
   sorted_wrt listed_before (map fst (get_qualified_roles threshold_roles 80)) \<and>
   fst ` set (get_qualified_roles threshold_roles 80) =
     {r \<in> set (roles threshold_roles). 80 \<le> score r}"
proof -
  have h: "wf_store threshold_roles" by code_simp
  have e: "map (\<lambda>(r, c). (r_id r, score r)) (get_qualified_roles threshold_roles 80) =
             [(2, 80)]" by code_simp
  from listings_ordered[OF h, of 80 1] h e show ?thesis by blast
qed

section \<open>Upserting a role twice (C1)\<close>

text \<open>
  C1 does not hold for a key whose location is \<^verbatim>\<open>None\<close>: the \<^verbatim>\<open>SELECT\<close> compares the
  location with \<^verbatim>\<open>NULL\<close> and finds no row, so the second upsert inserts a second row
  with the same company, title and location instead of updating the first. Two manual
  runs over a search result whose role has \<^verbatim>\<open>"location": null\<close> leave two rows in
  this way, where a role in London leaves one.
\<close>

theorem upsert_twice_null_location:
  "(case then_do
           (upsert_role dumps_empty 1 acme 1 (JStr ''PM'') (JStr ''u1'') JNull (JStr ''d1'')
              (JStr ''Senior'') (JStr ''Strategy'') 70 (JObj []) JNull)
           (\<lambda>st1. upsert_role dumps_empty 2 st1 1 (JStr ''PM'') (JStr ''u2'') JNull
                     (JStr ''d2'') (JStr ''Senior'') (JStr ''Strategy'') 90 (JObj []) JNull) of
      Inl e \<Rightarrow> False
    | Inr st2 \<Rightarrow>
        map (\<lambda>r. (company_id r, title r, location r, url r, score r)) (roles st2) =
          [(1, JStr ''PM'', JNull, JStr ''u1'', 70), (1, JStr ''PM'', JNull, JStr ''u2'', 90)]) \<and>
   map (\<lambda>r. (company_id r, title r, location r))
     (roles (db (run_scrape (fixed_env unplaced_role score_85)
                   (run_scrape (fixed_env unplaced_role score_85) (startup acme 5) None)
                   None))) =
     [(1, JStr ''PM'', JNull), (1, JStr ''PM'', JNull)] \<and>
   map (\<lambda>r. (company_id r, title r, location r))
     (roles (db (run_scrape (fixed_env london_role score_85)
                   (run_scrape (fixed_env london_role score_85) (startup acme 5) None)
                   None))) =
     [(1, JStr ''PM'', JStr ''London'')]"
  by code_simp

text \<open>
  For a key whose location is not null the merge is as the spec describes it, when the
  text arguments are strings or \<^verbatim>\<open>None\<close>, the breakdown is a dict or such a text, and
  the score lies in the range of its column. On a store that satisfies the schema's
  constraints, an upsert under the key of an existing row \<open>r0\<close> succeeds, leaves the
  number of rows as it is and leaves \<open>rewritten \<dots> r0\<close> as the only row with that key:
  \<open>url\<close>, \<open>description\<close>, \<open>seniority\<close>, \<open>department\<close>, \<open>posted_date\<close>, \<open>score\<close> and
  the breakdown are the call's, \<open>last_seen_at\<close> is the call's time, and \<open>status\<close>,
  \<open>applied_at\<close> and \<open>first_seen_at\<close> are those of \<open>r0\<close>.
\<close>

theorem upsert_role_again:
  assumes wf: "wf_store st"
    and r0: "r0 \<in> set (roles st)" "same_key cid t l r0" and l: "l \<noteq> JNull"
    and a: "list_all text_param [t, u, l, de, s, p, pd]" "is_dict b \<or> text_param b"
      "in_int4 sc"
  shows "\<exists>st'. upsert_role d now st cid t u l de s p sc b pd = Inr st' \<and>
           filter (same_key cid t l) (roles st') = [rewritten d now u de s p sc b pd r0] \<and>
           length (roles st') = length (roles st) \<and> wf_store st'"
proof -
  define g where "g = (\<lambda>r. if r_id r = r_id r0 then rewritten d now u de s p sc b pd r else r)"
  define st' where "st' = st\<lparr>roles := map g (roles st)\<rparr>"
  have up: "upsert_role d now st cid t u l de s p sc b pd = Inr st'"
    unfolding upsert_role_bound[OF a]
    using upsert_row_existing[OF wf r0 l] by (simp add: st'_def g_def)
  have kg: "same_key cid t l (g r) = same_key cid t l r" for r
    by (simp add: g_def same_key_def)
  have "filter (same_key cid t l) (map g (roles st)) =
        map g (filter (same_key cid t l) (roles st))"
    by (simp add: filter_map comp_def kg)
  also have "\<dots> = [g r0]"
    by (simp add: filter_same_key_existing[OF wf r0 l])
  finally have f: "filter (same_key cid t l) (roles st') = [rewritten d now u de s p sc b pd r0]"
    by (simp add: st'_def g_def)
  have w: "wf_store st'"
    using wf_store_rewrite[OF wf, of "r_id r0" d now u de s p sc b pd]
    by (simp add: st'_def g_def)
  have "length (roles st') = length (roles st)" by (simp add: st'_def)
  with up f w show ?thesis by blast
qed

theorem upsert_role_again_witness:
  "wf_store applied_store \<and> applied_role \<in> set (roles applied_store) \<and>
   same_key 1 (JStr ''PM'') (JStr ''London'') applied_role \<and>
   (\<exists>st'. upsert_role dumps_empty 9 applied_store 1 (JStr ''PM'') (JStr ''u2'')
             (JStr ''London'') (JStr ''d2'') (JStr ''Lead'') (JStr ''Strategy'') 95
             (JObj []) (JStr ''2024-05-01'') = Inr st' \<and>
          map (\<lambda>r. (url r, score r, status r, applied_at r, first_seen_at r, last_seen_at r))
            (filter (same_key 1 (JStr ''PM'') (JStr ''London'')) (roles st')) =
            [(JStr ''u2'', 95, ''applied'', Some 3, 1, 9)])"
proof -
  have h1: "wf_store applied_store" by code_simp
  have h2: "applied_role \<in> set (roles applied_store)" by code_simp
  have h3: "same_key 1 (JStr ''PM'') (JStr ''London'') applied_role" by code_simp
  have h4: "JStr ''London'' \<noteq> JNull" by simp
  have h5: "list_all text_param [JStr ''PM'', JStr ''u2'', JStr ''London'', JStr ''d2'',
              JStr ''Lead'', JStr ''Strategy'', JStr ''2024-05-01'']" by code_simp
  have h6: "is_dict (JObj []) \<or> text_param (JObj [])" by simp
  have h7: "in_int4 95" by code_simp
  have r: "(\<lambda>r. (url r, score r, status r, applied_at r, first_seen_at r, last_seen_at r))
             (rewritten dumps_empty 9 (JStr ''u2'') (JStr ''d2'') (JStr ''Lead'')
                (JStr ''Strategy'') 95 (JObj []) (JStr ''2024-05-01'') applied_role) =
           (JStr ''u2'', 95, ''applied'', Some 3, 1, 9)" by code_simp
  from upsert_role_again[OF h1 h2 h3 h4 h5 h6 h7, of dumps_empty 9]
  obtain st' where
    "upsert_role dumps_empty 9 applied_store 1 (JStr ''PM'') (JStr ''u2'')
             (JStr ''London'') (JStr ''d2'') (JStr ''Lead'') (JStr ''Strategy'') 95
             (JObj []) (JStr ''2024-05-01'') = Inr st'"
    "filter (same_key 1 (JStr ''PM'') (JStr ''London'')) (roles st') =
       [rewritten dumps_empty 9 (JStr ''u2'') (JStr ''d2'') (JStr ''Lead'')
                (JStr ''Strategy'') 95 (JObj []) (JStr ''2024-05-01'') applied_role]"
    by blast
  with r have "\<exists>st'. upsert_role dumps_empty 9 applied_store 1 (JStr ''PM'') (JStr ''u2'')
             (JStr ''London'') (JStr ''d2'') (JStr ''Lead'') (JStr ''Strategy'') 95
             (JObj []) (JStr ''2024-05-01'') = Inr st' \<and>
          map (\<lambda>r. (url r, score r, status r, applied_at r, first_seen_at r, last_seen_at r))
            (filter (same_key 1 (JStr ''PM'') (JStr ''London'')) (roles st')) =
            [(JStr ''u2'', 95, ''applied'', Some 3, 1, 9)]"
    by (intro exI[of _ st']) simp
  with h1 h2 h3 show ?thesis by blast
qed

text \<open>
  Two upserts in a row under a key whose title and location are not null, with such
  arguments, from any store that satisfies the constraints and holds the company: both
  succeed, after each there is exactly one row with the key, and the row after the second
  is the row after the first rewritten with the second call's fields and time.
\<close>

theorem upsert_role_twice:
  assumes wf: "wf_store st"
    and c: "cid \<in> c_id ` set (companies st)" and t: "t \<noteq> JNull" and l: "l \<noteq> JNull"
    and a1: "list_all text_param [t, u1, l, de1, s1, p1, pd1]" "is_dict b1 \<or> text_param b1"
      "in_int4 sc1"
    and a2: "list_all text_param [t, u2, l, de2, s2, p2, pd2]" "is_dict b2 \<or> text_param b2"
      "in_int4 sc2"
  shows "\<exists>st1 r1 st2.
           upsert_role d now1 st cid t u1 l de1 s1 p1 sc1 b1 pd1 = Inr st1 \<and>
           filter (same_key cid t l) (roles st1) = [r1] \<and>
           upsert_role d now2 st1 cid t u2 l de2 s2 p2 sc2 b2 pd2 = Inr st2 \<and>
           filter (same_key cid t l) (roles st2) =
             [rewritten d now2 u2 de2 s2 p2 sc2 b2 pd2 r1] \<and>
           wf_store st2"
proof -
  have "\<exists>st1 r1. upsert_role d now1 st cid t u1 l de1 s1 p1 sc1 b1 pd1 = Inr st1 \<and>
           filter (same_key cid t l) (roles st1) = [r1] \<and> wf_store st1"
  proof (cases "filter (same_key cid t l) (roles st)")
    case Nil
    from upsert_row_first[OF wf c t l Nil, of now1 u1 de1 s1 p1 sc1 b1 d pd1]
    show ?thesis unfolding upsert_role_bound[OF a1] by blast
  next
    case (Cons r0 rs)
    then have "r0 \<in> set (filter (same_key cid t l) (roles st))" by simp
    then have r0: "r0 \<in> set (roles st)" "same_key cid t l r0" by simp_all
    from upsert_role_again[OF wf r0 l a1, of d now1]
    show ?thesis by blast
  qed
  then obtain st1 r1 where
    up1: "upsert_role d now1 st cid t u1 l de1 s1 p1 sc1 b1 pd1 = Inr st1" and
    f1: "filter (same_key cid t l) (roles st1) = [r1]" and wf1: "wf_store st1" by blast
  from filter_singleton_mem[OF f1] have r1: "r1 \<in> set (roles st1)" "same_key cid t l r1"
    by simp_all
  from upsert_role_again[OF wf1 r1 l a2, of d now2] obtain st2 where
    "upsert_role d now2 st1 cid t u2 l de2 s2 p2 sc2 b2 pd2 = Inr st2"
    "filter (same_key cid t l) (roles st2) = [rewritten d now2 u2 de2 s2 p2 sc2 b2 pd2 r1]"
    "wf_store st2" by blast
  with up1 f1 show ?thesis by blast
qed

section \<open>The posted date (C6)\<close>

text \<open>
  C6 as the spec states it fails twice. In a manual run a \<open>posted_date\<close> that is present
  and empty is stored as null, since the test is one of truthiness; and a scheduled run
  passes no \<open>posted_date\<close> to the upsert at all, so it stores null where the manual run
  stores the date.
\<close>

theorem posted_date_counterexample:
  "map posted_date
     (roles (db (run_scrape (fixed_env blank_date_role score_85) (startup acme 5) None))) =
     [JNull] \<and>
   map posted_date
     (roles (db (scheduled_scrape (fixed_env dated_role score_85) (startup acme 5)))) =
     [JNull] \<and>
   map posted_date
     (roles (db (run_scrape (fixed_env dated_role score_85) (startup acme 5) None))) =
     [JStr ''2024-05-01'']"
  by code_simp

text \<open>
  C6, amended: in a manual run, for each (role, score) pair whose turn completes, the row
  written for the role has a null \<open>posted_date\<close> exactly when the search result's
  \<open>posted_date\<close> is absent, is falsy (null or the empty string; also zero, false, an
  empty list or dict) or is the string "Not specified"; otherwise it has the search
  result's value as the text column takes it, which for a string is the string itself.
\<close>

theorem manual_posted_date:
  assumes "api_store_role ev now st c role score_result = Inr (st', q)"
    and "dict_get role ''posted_date'' = Inr raw_posted"
  shows "\<exists>r \<in> set (roles st').
           company_id r = c_id c \<and> last_seen_at r = now \<and>
           then_do (dict_get_default role ''title'' (JStr ''Unknown'')) bind_key =
             Inr (title r) \<and>
           then_do (dict_get_default role ''location'' (JStr [])) bind_key =
             Inr (location r) \<and>
           (posted_date r = JNull \<longleftrightarrow>
              (case raw_posted of
                 None \<Rightarrow> True
               | Some v \<Rightarrow> \<not> truthy v \<or> v = JStr ''Not specified'')) \<and>
           (posted_date r \<noteq> JNull \<longrightarrow>
              (\<exists>v. raw_posted = Some v \<and> bind_text v = Inr (posted_date r))) \<and>
           (\<forall>s. raw_posted = Some (JStr s) \<and> s \<noteq> [] \<and> s \<noteq> ''Not specified'' \<longrightarrow>
              posted_date r = JStr s)"
proof -
  from api_store_role_Inr[OF assms(1)] obtain tot pd where
    pd: "posted_date_of role = Inr pd" and
    up: "upsert_scored ev now st c role score_result tot pd = Inr st'" by blast
  from turn_writes[OF up] obtain r where
    r: "r \<in> set (roles st')" "company_id r = c_id c" "last_seen_at r = now"
       "then_do (dict_get_default role ''title'' (JStr ''Unknown'')) bind_key = Inr (title r)"
       "then_do (dict_get_default role ''location'' (JStr [])) bind_key = Inr (location r)"
       "bind_text pd = Inr (posted_date r)" by blast
  note p = posted_date_of_Inr[OF assms(2) pd]
  have n: "posted_date r = JNull \<longleftrightarrow> pd = JNull" using r(6) by (rule bind_text_null)
  have a: "posted_date r = JNull \<longleftrightarrow>
             (case raw_posted of None \<Rightarrow> True
              | Some v \<Rightarrow> \<not> truthy v \<or> v = JStr ''Not specified'')"
    using p n by simp
  have b: "posted_date r \<noteq> JNull \<longrightarrow>
             (\<exists>v. raw_posted = Some v \<and> bind_text v = Inr (posted_date r))"
    using p n r(6) by auto
  have c: "\<forall>s. raw_posted = Some (JStr s) \<and> s \<noteq> [] \<and> s \<noteq> ''Not specified'' \<longrightarrow>
             posted_date r = JStr s"
  proof (intro allI impI)
    fix s assume h: "raw_posted = Some (JStr s) \<and> s \<noteq> [] \<and> s \<noteq> ''Not specified''"
    with a have "posted_date r \<noteq> JNull" by simp
    with b h have "bind_text (JStr s) = Inr (posted_date r)" by auto
    then show "posted_date r = JStr s" by (rule bind_text_string)
  qed
  from r(1-5) a b c show ?thesis by (intro bexI[of _ r] conjI)
qed

theorem manual_posted_date_witness:
  "api_store_role (fixed_env [] []) 7 acme acme_company posted_role good_score =
     Inr (posted_after_turn, True) \<and>
   dict_get posted_role ''posted_date'' = Inr (Some (JStr ''2024-05-01'')) \<and>
   (\<exists>r \<in> set (roles posted_after_turn).
      company_id r = 1 \<and> last_seen_at r = 7 \<and> posted_date r = JStr ''2024-05-01'')"
proof -
  have h1: "api_store_role (fixed_env [] []) 7 acme acme_company posted_role good_score =
              Inr (posted_after_turn, True)" by code_simp
  have h2: "dict_get posted_role ''posted_date'' = Inr (Some (JStr ''2024-05-01''))"
    by code_simp
  have c: "c_id acme_company = 1" by code_simp
  have s: "''2024-05-01'' \<noteq> [] \<and> ''2024-05-01'' \<noteq> ''Not specified''" by simp
  from manual_posted_date[OF h1 h2] obtain r where
    r: "r \<in> set (roles posted_after_turn)" "company_id r = c_id acme_company"
       "last_seen_at r = 7"
       "\<forall>s. Some (JStr ''2024-05-01'') = Some (JStr s) \<and> s \<noteq> [] \<and> s \<noteq> ''Not specified'' \<longrightarrow>
          posted_date r = JStr s" by blast
  from r(4) s have "posted_date r = JStr ''2024-05-01''" by blast
  with r(1-3) c have "\<exists>r \<in> set (roles posted_after_turn).
      company_id r = 1 \<and> last_seen_at r = 7 \<and> posted_date r = JStr ''2024-05-01''"
    by (intro bexI[of _ r]) simp_all
  with h1 h2 show ?thesis by blast
qed

text \<open>A \<open>posted_date\<close> that is an integer is stored as its decimal text.\<close>

theorem numbered_posted_date:
  "map posted_date
     (roles (db (run_scrape (fixed_env numbered_date_role score_85) (startup acme 5) None))) =
     [JStr ''20240501'']"
  by code_simp

section \<open>The range of the score (C8)\<close>




text \<open>At the limits of the column: a total score of 85.5 is at least the threshold and
  is stored as 86; a total score of 2147483648 is refused, so the company's turn ends
  with an error row and no role.\<close>

theorem fractional_and_wide_scores:
  "(let a = run_scrape (fixed_env one_role fractional_response) (startup acme 5) None
    in map score (roles (db a)) = [86] \<and>
       map summary (scrape_logs (db a)) = [(''completed'', 1, 1, None)]) \<and>
   (let a = run_scrape (fixed_env one_role wide_response) (startup acme 5) None
    in roles (db a) = [] \<and>
       map (\<lambda>l. (l_status l, roles_found l, roles_qualified l)) (scrape_logs (db a)) =
         [(''error'', 0, 0)])"
  by code_simp

section \<open>A run with a failing company (C2)\<close>




text \<open>A role whose location is a list finds no operator in the \<^verbatim>\<open>SELECT\<close>: the
  company's turn ends with an error row and no role.\<close>

theorem list_valued_location:
  "(let a = run_scrape (fixed_env two_places_role score_85) (startup acme 5) None
    in roles (db a) = [] \<and>
       map (\<lambda>l. (l_status l, roles_found l, roles_qualified l)) (scrape_logs (db a)) =
         [(''error'', 0, 0)])"
  by code_simp

section \<open>Listing the roles of one company (C10)\<close>

text \<open>
  C10: on a store that satisfies the schema's constraints, the listing that is called with
  a company id contains every role of that company, whatever its score and whatever
  \<open>qualified_only\<close> is. For an id other than 0 (no company has the id 0, and the
  program takes 0 for no id) \<open>qualified_only\<close> is ignored: the listing is the company's
  listing, the same for both values of the parameter, and holds exactly the company's
  roles, each once.
\<close>

theorem list_roles_by_company_ignores_qualified_only:
  assumes "wf_store st"
  shows "r_id ` {r \<in> set (roles st). company_id r = cid} \<subseteq>
           r_id ` fst ` set (list_roles l st q (Some cid)) \<and>
         (cid \<noteq> 0 \<longrightarrow>
            list_roles l st q (Some cid) =
              map (normalize_role l) (get_roles_by_company st cid) \<and>
            list_roles l st True (Some cid) = list_roles l st False (Some cid) \<and>
            fst ` set (get_roles_by_company st cid) =
              {r \<in> set (roles st). company_id r = cid} \<and>
            length (list_roles l st q (Some cid)) =
              length (filter (\<lambda>r. company_id r = cid) (roles st)))"
proof (cases "cid = 0")
  case True
  have e: "{r \<in> set (roles st). company_id r = cid} = {}"
    using no_role_of_company_0[OF assms] True by auto
  have "r_id ` {r \<in> set (roles st). company_id r = cid} \<subseteq>
           r_id ` fst ` set (list_roles l st q (Some cid))"
    unfolding e by (rule image_empty[THEN ssubst]) (rule empty_subsetI)
  with True show ?thesis by blast
next
  case False
  have eq: "list_roles l st q' (Some cid) = map (normalize_role l) (get_roles_by_company st cid)"
    for q' using False by (simp add: list_roles_def)
  note rows = by_company_rows[OF assms, of cid]
  have "r_id ` fst ` set (list_roles l st q (Some cid)) =
        r_id ` fst ` set (get_roles_by_company st cid)"
    by (simp add: eq image_image)
  with rows(1) have "r_id ` {r \<in> set (roles st). company_id r = cid} \<subseteq>
           r_id ` fst ` set (list_roles l st q (Some cid))" by simp
  with rows eq show ?thesis by simp
qed

theorem list_roles_by_company_witness:
  "wf_store mixed_roles \<and>
   map (\<lambda>x. (r_id (fst x), score (fst x))) (list_roles json_loads mixed_roles True (Some 1)) =
     [(1, 90), (2, 40)] \<and>
   list_roles json_loads mixed_roles True (Some 1) =
     list_roles json_loads mixed_roles False (Some 1) \<and>
   length (list_roles json_loads mixed_roles True (Some 1)) =
     length (filter (\<lambda>r. company_id r = 1) (roles mixed_roles))"
proof -
  have h: "wf_store mixed_roles" by code_simp
  have e: "map (\<lambda>x. (r_id (fst x), score (fst x)))
             (list_roles json_loads mixed_roles True (Some 1)) = [(1, 90), (2, 40)]"
    by code_simp
  have n: "(1::int) \<noteq> 0" by simp
  from list_roles_by_company_ignores_qualified_only[OF h, of 1 json_loads True] n h e
  show ?thesis by blast
qed

end
